theory Spec2Isabelle
  imports Main "HOL-Library.Word" "HOL-Library.Multiset"
begin

section \<open>Data model of core/types/block.go\<close>

text \<open>
  Fixed-size byte arrays of the source are words of the same width, read big-endian.
  \<open>common.Hash\<close>, \<open>common.Address\<close> and \<open>Bloom\<close> are declared outside block.go; their
  sizes are the protocol's, 32, 20 and 256 bytes (the specification has 256-bit hashes, a
  20-byte address and a fixed-size bit vector). The header's \<open>Nonce\<close> is \<open>[8]byte\<close>. The
  zero value of each array (\<open>common.Hash{}\<close>) is the word \<open>0\<close>.
  A \<open>*big.Int\<close> is an \<open>int\<close> behind a pointer, and \<open>uint64\<close> a 64-bit word.
  A Go pointer is an \<open>option\<close>: \<open>None\<close> is \<open>nil\<close>. Dereferencing \<open>nil\<close> panics, and
  a panic is the \<open>Inl\<close> branch of a result.
  A slice is a list; the \<open>nil\<close> slice and the empty slice are both \<open>[]\<close>.
  A block holds its header by value: the header object behind \<open>self.header\<close> is taken
  to be reachable through no other pointer of the block (no uncle pointer is the block's
  own header), which is the ownership the data model of the specification states.
\<close>

type_synonym byte = "8 word"
type_synonym hash = "256 word"
type_synonym address = "160 word"
type_synonym bloom = "2048 word"
type_synonym 'a ptr = "'a option"

datatype error = NilPointerDereference | IndexOutOfRange | MalformedEncoding

text \<open>The results of a loop over a slice: the first panic or error, else all the values.\<close>

fun collect :: "(error + 'a) list \<Rightarrow> error + 'a list" where
  "collect [] = Inr []"
| "collect (x # xs) =
     (case x of Inl e \<Rightarrow> Inl e
      | Inr v \<Rightarrow> (case collect xs of Inl e \<Rightarrow> Inl e | Inr vs \<Rightarrow> Inr (v # vs)))"

record Header =
  ParentHash :: hash
  UncleHash :: hash
  Coinbase :: address
  Root :: hash
  TxHash :: hash
  ReceiptHash :: hash
  Bloom :: bloom
  Difficulty :: "int ptr"
  Number :: "int ptr"
  GasLimit :: "int ptr"
  GasUsed :: "int ptr"
  Time :: "64 word"
  Extra :: string
  MixDigest :: hash
  Nonce :: "64 word"

text \<open>
  The values the source hands to the encoder as \<open>interface{}\<close>: the typed header fields
  (\<open>field\<close>), header and transaction pointers, and slices of such values. Transactions
  and receipts are opaque (\<open>'tx\<close>, \<open>'rc\<close>).
\<close>

datatype field =
    FHash hash
  | FAddress address
  | FBloom bloom
  | FBig "int ptr"
  | FUint64 "64 word"
  | FString string
  | FNonce "64 word"

datatype 'tx val =
    VField field
  | VHeader "Header ptr"
  | VTx "'tx ptr"
  | VList "'tx val list"

record ('tx, 'rc) Block =
  HeaderHash :: hash
  ParentHeaderHash :: hash
  header :: "Header ptr"
  uncles :: "Header ptr list"
  transactions :: "'tx ptr list"
  Td :: "int ptr"
  receipts :: "'rc ptr list"
  Reward :: "int ptr"

text \<open>
  The collaborators block.go calls and the repository defines elsewhere: \<open>DeriveSha\<close>
  (on transactions and on receipts), \<open>CreateBloom\<close>, \<open>common.Encode\<close>, \<open>crypto.Sha3\<close>
  and \<open>common.BytesToHash\<close>. They are pure functions and parameters of the model.
\<close>

record ('tx, 'rc) collab =
  DeriveSha_txs :: "'tx ptr list \<Rightarrow> hash"
  DeriveSha_rcs :: "'rc ptr list \<Rightarrow> hash"
  CreateBloom :: "'rc ptr list \<Rightarrow> bloom"
  Encode :: "'tx val \<Rightarrow> byte list"
  Sha3 :: "byte list \<Rightarrow> byte list"
  BytesToHash :: "byte list \<Rightarrow> hash"

section \<open>Header\<close>

text \<open>\<open>Header.rlpData\<close> on a dereferenced header: thirteen fields, then the two
  proof-of-work fields when \<open>withNonce\<close>.\<close>

definition rlpData :: "Header \<Rightarrow> bool \<Rightarrow> field list" where
  "rlpData self withNonce =
     (let fields =
        [FHash (ParentHash self), FHash (UncleHash self), FAddress (Coinbase self),
         FHash (Root self), FHash (TxHash self), FHash (ReceiptHash self),
         FBloom (Bloom self), FBig (Difficulty self), FBig (Number self),
         FBig (GasLimit self), FBig (GasUsed self), FUint64 (Time self),
         FString (Extra self)]
      in if withNonce then fields @ [FHash (MixDigest self), FNonce (Nonce self)]
         else fields)"

text \<open>The methods have a pointer receiver; every one of them reads a field of \<open>self\<close>
  first, so a \<open>nil\<close> receiver panics.\<close>

definition Header_rlpData :: "Header ptr \<Rightarrow> bool \<Rightarrow> error + field list" where
  "Header_rlpData self withNonce =
     (case self of None \<Rightarrow> Inl NilPointerDereference
      | Some h \<Rightarrow> Inr (rlpData h withNonce))"

definition Header_RlpData :: "Header ptr \<Rightarrow> error + 'tx val" where
  "Header_RlpData self =
     (case Header_rlpData self True of Inl e \<Rightarrow> Inl e | Inr fs \<Rightarrow> Inr (VList (map VField fs)))"

text \<open>A slice of header pointers handed to \<open>common.Encode\<close>: the encoder asks every
  element for its \<open>RlpData\<close>, so a \<open>nil\<close> element panics in \<open>Header.rlpData\<close>; what is
  encoded is the list of the headers' field lists.\<close>

definition headers_RlpData :: "Header ptr list \<Rightarrow> error + 'tx val" where
  "headers_RlpData hs =
     (case collect (map Header_RlpData hs) of Inl e \<Rightarrow> Inl e | Inr vs \<Rightarrow> Inr (VList vs))"

definition Header_Hash :: "('tx, 'rc) collab \<Rightarrow> Header ptr \<Rightarrow> error + hash" where
  "Header_Hash c self =
     (case Header_rlpData self True of Inl e \<Rightarrow> Inl e
      | Inr fs \<Rightarrow> Inr (BytesToHash c (Sha3 c (Encode c (VList (map VField fs))))))"

definition Header_HashNoNonce :: "('tx, 'rc) collab \<Rightarrow> Header ptr \<Rightarrow> error + hash" where
  "Header_HashNoNonce c self =
     (case Header_rlpData self False of Inl e \<Rightarrow> Inl e
      | Inr fs \<Rightarrow> Inr (BytesToHash c (Sha3 c (Encode c (VList (map VField fs))))))"

text \<open>\<open>Header.SetNonce\<close>: \<open>binary.BigEndian.PutUint64\<close> writes the eight bytes of the
  nonce big-endian, which is the word itself in the big-endian reading of \<open>[8]byte\<close>.
  \<open>SetNonce\<close> is the method on a dereferenced header, \<open>Header_SetNonce\<close> the call through
  a pointer.\<close>

definition SetNonce :: "Header \<Rightarrow> 64 word \<Rightarrow> Header" where
  "SetNonce self nonce = self\<lparr>Nonce := nonce\<rparr>"

definition Header_SetNonce :: "Header ptr \<Rightarrow> 64 word \<Rightarrow> error + Header" where
  "Header_SetNonce self nonce =
     (case self of None \<Rightarrow> Inl NilPointerDereference
      | Some h \<Rightarrow> Inr (SetNonce h nonce))"

section \<open>Block\<close>


definition NewBlockWithHeader :: "Header ptr \<Rightarrow> ('tx, 'rc) Block" where
  "NewBlockWithHeader h =
     \<lparr>HeaderHash = 0, ParentHeaderHash = 0, header = h, uncles = [], transactions = [],
      Td = None, receipts = [], Reward = None\<rparr>"


definition SetTransactions ::
  "('tx, 'rc) collab \<Rightarrow> ('tx, 'rc) Block \<Rightarrow> 'tx ptr list \<Rightarrow> error + ('tx, 'rc) Block" where
  "SetTransactions c self txs =
     (case header self of None \<Rightarrow> Inl NilPointerDereference
      | Some h \<Rightarrow>
          Inr (self\<lparr>transactions := txs,
                header := Some (h\<lparr>TxHash := DeriveSha_txs c txs\<rparr>)\<rparr>))"

definition AddTransaction ::
  "('tx, 'rc) collab \<Rightarrow> ('tx, 'rc) Block \<Rightarrow> 'tx ptr \<Rightarrow> error + ('tx, 'rc) Block" where
  "AddTransaction c self tx =
     (let self1 = self\<lparr>transactions := transactions self @ [tx]\<rparr>
      in SetTransactions c self1 (transactions self1))"

definition SetReceipts ::
  "('tx, 'rc) collab \<Rightarrow> ('tx, 'rc) Block \<Rightarrow> 'rc ptr list \<Rightarrow> error + ('tx, 'rc) Block" where
  "SetReceipts c self rcs =
     (case header self of None \<Rightarrow> Inl NilPointerDereference
      | Some h \<Rightarrow>
          Inr (self\<lparr>receipts := rcs,
                header := Some (h\<lparr>ReceiptHash := DeriveSha_rcs c rcs,
                                  Bloom := CreateBloom c rcs\<rparr>)\<rparr>))"

definition AddReceipt ::
  "('tx, 'rc) collab \<Rightarrow> ('tx, 'rc) Block \<Rightarrow> 'rc ptr \<Rightarrow> error + ('tx, 'rc) Block" where
  "AddReceipt c self rc =
     (let self1 = self\<lparr>receipts := receipts self @ [rc]\<rparr>
      in SetReceipts c self1 (receipts self1))"

text \<open>\<open>GetTransaction\<close> and \<open>GetUncle\<close> take a Go \<open>int\<close>. The guard compares it with the
  length only, so a negative index passes the guard and the slice access panics.\<close>

definition GetTransaction :: "('tx, 'rc) Block \<Rightarrow> int \<Rightarrow> error + 'tx ptr" where
  "GetTransaction self i =
     (if int (length (transactions self)) > i
      then (if i < 0 then Inl IndexOutOfRange else Inr (transactions self ! nat i))
      else Inr None)"

definition GetUncle :: "('tx, 'rc) Block \<Rightarrow> int \<Rightarrow> error + Header ptr" where
  "GetUncle self i =
     (if int (length (uncles self)) > i
      then (if i < 0 then Inl IndexOutOfRange else Inr (uncles self ! nat i))
      else Inr None)"

definition Block_HashNoNonce :: "('tx, 'rc) collab \<Rightarrow> ('tx, 'rc) Block \<Rightarrow> error + hash" where
  "Block_HashNoNonce c self = Header_HashNoNonce c (header self)"

definition Block_Hash :: "('tx, 'rc) collab \<Rightarrow> ('tx, 'rc) Block \<Rightarrow> error + hash" where
  "Block_Hash c self =
     (if HeaderHash self \<noteq> 0 then Inr (HeaderHash self)
      else Header_Hash c (header self))"

definition Block_ParentHash :: "('tx, 'rc) Block \<Rightarrow> error + hash" where
  "Block_ParentHash self =
     (if ParentHeaderHash self \<noteq> 0 then Inr (ParentHeaderHash self)
      else (case header self of None \<Rightarrow> Inl NilPointerDereference
            | Some h \<Rightarrow> Inr (ParentHash h)))"


section \<open>Sequences of mutating calls\<close>












text \<open>Two field lists that differ and have the same digest: a collision of the
  encode-then-hash that \<open>Header.Hash\<close> applies.\<close>

definition hash_collision :: "('tx, 'rc) collab \<Rightarrow> field list \<Rightarrow> field list \<Rightarrow> bool" where
  "hash_collision c fs gs =
     (fs \<noteq> gs \<and>
      BytesToHash c (Sha3 c (Encode c (VList (map VField fs)))) =
      BytesToHash c (Sha3 c (Encode c (VList (map VField gs)))))"

text \<open>Two headers that agree on the thirteen fields other than \<open>MixDigest\<close> and \<open>Nonce\<close>.\<close>

definition same_but_pow :: "Header \<Rightarrow> Header \<Rightarrow> bool" where
  "same_but_pow h1 h2 =
     (ParentHash h1 = ParentHash h2 \<and> UncleHash h1 = UncleHash h2
      \<and> Coinbase h1 = Coinbase h2 \<and> Root h1 = Root h2 \<and> TxHash h1 = TxHash h2
      \<and> ReceiptHash h1 = ReceiptHash h2 \<and> Bloom h1 = Bloom h2
      \<and> Difficulty h1 = Difficulty h2 \<and> Number h1 = Number h2
      \<and> GasLimit h1 = GasLimit h2 \<and> GasUsed h1 = GasUsed h2 \<and> Time h1 = Time h2
      \<and> Extra h1 = Extra h2)"


section \<open>Block ordering\<close>

text \<open>\<open>Blocks\<close> is a slice of block pointers, \<open>BlockBy\<close> a comparison that may panic.
  \<open>Number\<close> dereferences both blocks, both headers and both numbers
  (\<open>big.Int.Cmp\<close> reads its receiver and its argument).\<close>

type_synonym ('tx, 'rc) Blocks = "('tx, 'rc) Block ptr list"
type_synonym ('tx, 'rc) BlockBy =
  "('tx, 'rc) Block ptr \<Rightarrow> ('tx, 'rc) Block ptr \<Rightarrow> error + bool"

definition Block_Header :: "('tx, 'rc) Block ptr \<Rightarrow> error + Header ptr" where
  "Block_Header self =
     (case self of None \<Rightarrow> Inl NilPointerDereference | Some b \<Rightarrow> Inr (header b))"

definition Header_Number :: "Header ptr \<Rightarrow> error + int ptr" where
  "Header_Number h =
     (case h of None \<Rightarrow> Inl NilPointerDereference | Some h' \<Rightarrow> Inr (Number h'))"

definition big_Cmp :: "int ptr \<Rightarrow> int ptr \<Rightarrow> error + int" where
  "big_Cmp x y =
     (case x of None \<Rightarrow> Inl NilPointerDereference
      | Some a \<Rightarrow>
          (case y of None \<Rightarrow> Inl NilPointerDereference
           | Some b \<Rightarrow> Inr (if a < b then - 1 else if a = b then 0 else 1)))"

definition Number_by :: "('tx, 'rc) BlockBy" where
  "Number_by b1 b2 =
     (case Block_Header b1 of Inl e \<Rightarrow> Inl e
      | Inr h1 \<Rightarrow>
     (case Header_Number h1 of Inl e \<Rightarrow> Inl e
      | Inr n1 \<Rightarrow>
     (case Block_Header b2 of Inl e \<Rightarrow> Inl e
      | Inr h2 \<Rightarrow>
     (case Header_Number h2 of Inl e \<Rightarrow> Inl e
      | Inr n2 \<Rightarrow>
     (case big_Cmp n1 n2 of Inl e \<Rightarrow> Inl e
      | Inr r \<Rightarrow> Inr (r < 0))))))"

record ('tx, 'rc) blockSorter =
  blocks :: "('tx, 'rc) Blocks"
  by_fn :: "('tx, 'rc) BlockBy"

text \<open>The three methods of \<open>sort.Interface\<close>. The sorter is passed by value but its
  slice shares the caller's array, so \<open>Swap\<close> returns the sorter with the updated slice.
  An index outside the slice panics.\<close>

definition Len :: "('tx, 'rc) blockSorter \<Rightarrow> nat" where
  "Len self = length (blocks self)"

definition Swap :: "('tx, 'rc) blockSorter \<Rightarrow> nat \<Rightarrow> nat \<Rightarrow> error + ('tx, 'rc) blockSorter" where
  "Swap self i j =
     (if i < length (blocks self) \<and> j < length (blocks self)
      then Inr (self\<lparr>blocks := (blocks self)[i := blocks self ! j, j := blocks self ! i]\<rparr>)
      else Inl IndexOutOfRange)"

definition Less :: "('tx, 'rc) blockSorter \<Rightarrow> nat \<Rightarrow> nat \<Rightarrow> error + bool" where
  "Less self i j =
     (if i < length (blocks self) \<and> j < length (blocks self)
      then by_fn self (blocks self ! i) (blocks self ! j)
      else Inl IndexOutOfRange)"

text \<open>
  \<open>sort.Sort\<close> belongs to Go's standard library, not to the repository, and its routine
  has changed between releases. \<open>BlockBy.Sort\<close> takes it as the parameter \<open>sort_Sort\<close>; the
  result is the content of the caller's slice afterwards.
\<close>

definition BlockBy_Sort ::
  "(('tx, 'rc) blockSorter \<Rightarrow> error + ('tx, 'rc) blockSorter) \<Rightarrow> ('tx, 'rc) BlockBy
   \<Rightarrow> ('tx, 'rc) Blocks \<Rightarrow> error + ('tx, 'rc) Blocks" where
  "BlockBy_Sort sort_Sort self bls =
     (let bs = \<lparr>blocks = bls, by_fn = self\<rparr>
      in case sort_Sort bs of Inl e \<Rightarrow> Inl e | Inr bs' \<Rightarrow> Inr (blocks bs'))"

text \<open>
  What the library's documentation says of \<open>sort.Sort\<close> and \<open>sort.Interface\<close>. The
  routine reaches the data through \<open>Len\<close>, \<open>Less\<close> and \<open>Swap\<close> only, so the slice it
  leaves is the result of a sequence of \<open>Swap\<close> calls. \<open>Less\<close> must describe a transitive
  ordering: when \<open>Less\<close> holds of \<open>i, j\<close> and of \<open>j, k\<close> it holds of \<open>i, k\<close>, and when it
  fails of \<open>i, j\<close> and of \<open>j, k\<close> it fails of \<open>i, k\<close>; here it must also not panic and
  must fail of an element and itself. On such data the routine returns and leaves the
  slice in ascending order: \<open>Less\<close> fails of every element and its predecessor.
\<close>

fun apply_swaps ::
  "('tx, 'rc) blockSorter \<Rightarrow> (nat \<times> nat) list \<Rightarrow> error + ('tx, 'rc) blockSorter" where
  "apply_swaps d [] = Inr d"
| "apply_swaps d ((i, j) # ps) =
     (case Swap d i j of Inl e \<Rightarrow> Inl e | Inr d' \<Rightarrow> apply_swaps d' ps)"

definition transitive_ordering :: "('tx, 'rc) BlockBy \<Rightarrow> ('tx, 'rc) Blocks \<Rightarrow> bool" where
  "transitive_ordering f bs =
     (list_all (\<lambda>x. list_all (\<lambda>y. f x y = Inr True \<or> f x y = Inr False) bs) bs
      \<and> list_all (\<lambda>x. f x x = Inr False) bs
      \<and> list_all (\<lambda>x. list_all (\<lambda>y. list_all (\<lambda>z.
            f x y = Inr True \<and> f y z = Inr True \<longrightarrow> f x z = Inr True) bs) bs) bs
      \<and> list_all (\<lambda>x. list_all (\<lambda>y. list_all (\<lambda>z.
            f x y = Inr False \<and> f y z = Inr False \<longrightarrow> f x z = Inr False) bs) bs) bs)"

definition meets_sort_contract ::
  "(('tx, 'rc) blockSorter \<Rightarrow> error + ('tx, 'rc) blockSorter) \<Rightarrow> bool" where
  "meets_sort_contract sort_Sort =
     (\<forall>d. transitive_ordering (by_fn d) (blocks d) \<longrightarrow>
        (\<exists>d' ps. sort_Sort d = Inr d' \<and> apply_swaps d ps = Inr d'
           \<and> (\<forall>i. Suc i < Len d' \<longrightarrow> Less d' (Suc i) i = Inr False)))"

text \<open>
  The library's \<open>insertionSort\<close>, which \<open>sort.Sort\<close> uses on short slices, driving the
  three methods of the sorter:
  \<^verbatim>\<open>
  for i := a + 1; i < b; i++ {
      for j := i; j > a && data.Less(j, j-1); j-- {
          data.Swap(j, j-1)
      }
  }
  \<close>
  \<open>short_Sort\<close> reads the length once and sorts the whole slice by insertion: one routine
  that meets the contract, not the library's routine for every length.
\<close>

fun insertionSort_inner ::
  "('tx, 'rc) blockSorter \<Rightarrow> nat \<Rightarrow> nat \<Rightarrow> error + ('tx, 'rc) blockSorter" where
  "insertionSort_inner data a 0 = Inr data"
| "insertionSort_inner data a (Suc k) =
     (if Suc k > a
      then (case Less data (Suc k) k of Inl e \<Rightarrow> Inl e
            | Inr lt \<Rightarrow>
                if lt
                then (case Swap data (Suc k) k of Inl e \<Rightarrow> Inl e
                      | Inr data' \<Rightarrow> insertionSort_inner data' a k)
                else Inr data)
      else Inr data)"

function insertionSort_outer ::
  "('tx, 'rc) blockSorter \<Rightarrow> nat \<Rightarrow> nat \<Rightarrow> nat \<Rightarrow> error + ('tx, 'rc) blockSorter" where
  "insertionSort_outer data a i b =
     (if i < b
      then (case insertionSort_inner data a i of Inl e \<Rightarrow> Inl e
            | Inr data' \<Rightarrow> insertionSort_outer data' a (Suc i) b)
      else Inr data)"
  by pat_completeness auto
termination
  by (relation "measure (\<lambda>(data, a, i, b). b - i)") auto

definition insertionSort ::
  "('tx, 'rc) blockSorter \<Rightarrow> nat \<Rightarrow> nat \<Rightarrow> error + ('tx, 'rc) blockSorter" where
  "insertionSort data a b = insertionSort_outer data a (a + 1) b"

definition short_Sort :: "('tx, 'rc) blockSorter \<Rightarrow> error + ('tx, 'rc) blockSorter" where
  "short_Sort data = (let n = Len data in insertionSort data 0 n)"

text \<open>A slice in ascending order of a comparison: it fails of every element and any
  element before it.\<close>

definition ascending :: "('tx, 'rc) BlockBy \<Rightarrow> ('tx, 'rc) Blocks \<Rightarrow> bool" where
  "ascending f xs = sorted_wrt (\<lambda>a b. f b a = Inr False) xs"

text \<open>The header number of a block pointer, when every pointer on the way is set.\<close>

definition number_of :: "('tx, 'rc) Block ptr \<Rightarrow> int option" where
  "number_of b =
     (case b of None \<Rightarrow> None
      | Some B \<Rightarrow> (case header B of None \<Rightarrow> None | Some h \<Rightarrow> Number h))"


section \<open>Canonical encoding and the wire decoder\<close>

text \<open>\<open>Block.RlpData\<close> and \<open>Block.RlpDataForStorage\<close>: the network form and the storage
  form, as the values handed to the encoder.\<close>

definition Block_RlpData :: "('tx, 'rc) Block \<Rightarrow> 'tx val" where
  "Block_RlpData self =
     VList [VHeader (header self), VList (map VTx (transactions self)),
            VList (map VHeader (uncles self))]"

definition Block_RlpDataForStorage :: "('tx, 'rc) Block \<Rightarrow> 'tx val" where
  "Block_RlpDataForStorage self =
     VList [VHeader (header self), VList (map VTx (transactions self)),
            VList (map VHeader (uncles self)), VField (FBig (Td self))]"

text \<open>
  Modelled from the spec: the data model of the Canonical Encoder, whose code (the
  packages \<open>common\<close> and \<open>rlp\<close>) is not among the sources. An encoding is a byte string or
  a nested list of encodings (section 4.1: scalars, fixed-size byte arrays, variable-length
  byte strings, nested lists). The byte-level length prefixes are left out: the specification
  says they are lossless and gives no layout for them, so a stream is read here as the
  encoding tree it frames.
\<close>

datatype rlp = RBytes "byte list" | RList "rlp list"

definition be_nat :: "byte list \<Rightarrow> nat" where
  "be_nat bs = foldl (\<lambda>a b. a * 256 + unat b) 0 bs"

fun be_min :: "nat \<Rightarrow> byte list" where
  "be_min n = (if n = 0 then [] else be_min (n div 256) @ [of_nat (n mod 256)])"

declare be_min.simps [simp del]

fun be_fixed :: "nat \<Rightarrow> nat \<Rightarrow> byte list" where
  "be_fixed 0 n = []"
| "be_fixed (Suc k) n = be_fixed k (n div 256) @ [of_nat (n mod 256)]"

definition bytes_of_string :: "string \<Rightarrow> byte list" where
  "bytes_of_string s = map (\<lambda>ch. of_nat (of_char ch)) s"

definition string_of_bytes :: "byte list \<Rightarrow> string" where
  "string_of_bytes bs = map (\<lambda>b. char_of (unat b)) bs"

definition err_bind :: "error + 'a \<Rightarrow> ('a \<Rightarrow> error + 'b) \<Rightarrow> error + 'b" where
  "err_bind m f = (case m of Inl e \<Rightarrow> Inl e | Inr v \<Rightarrow> f v)"

text \<open>
  Modelled from the spec: the Canonical Encoder on field values (section 4.1). A fixed-size
  byte array is its bytes; a numeric field is its minimal unsigned big-endian byte
  representation, with no fixed width and no sign, so that a negative number is encoded as
  its magnitude; a string is its bytes. The specification has no \<open>nil\<close> number; a \<open>nil\<close>
  \<open>*big.Int\<close> is encoded as zero, the empty byte string.
\<close>

fun encode_field :: "field \<Rightarrow> rlp" where
  "encode_field (FHash w) = RBytes (be_fixed 32 (unat w))"
| "encode_field (FAddress w) = RBytes (be_fixed 20 (unat w))"
| "encode_field (FBloom w) = RBytes (be_fixed 256 (unat w))"
| "encode_field (FBig None) = RBytes []"
| "encode_field (FBig (Some n)) = RBytes (be_min (nat \<bar>n\<bar>))"
| "encode_field (FUint64 w) = RBytes (be_min (unat w))"
| "encode_field (FString s) = RBytes (bytes_of_string s)"
| "encode_field (FNonce w) = RBytes (be_fixed 8 (unat w))"

text \<open>
  Modelled from the spec: the Canonical Encoder on nested values (section 4.1 (c)). A slice
  is the list of its elements' encodings; a header is the list of the fields that
  \<open>Header.RlpData\<close> returns, which panics on a \<open>nil\<close> header; a transaction is opaque and
  has its own canonical encoding \<open>etx\<close>.
\<close>

fun encode_val :: "('tx \<Rightarrow> rlp) \<Rightarrow> 'tx val \<Rightarrow> error + rlp" where
  "encode_val etx (VField f) = Inr (encode_field f)"
| "encode_val etx (VHeader p) =
     (case Header_rlpData p True of Inl e \<Rightarrow> Inl e
      | Inr fs \<Rightarrow> Inr (RList (map encode_field fs)))"
| "encode_val etx (VTx None) = Inl NilPointerDereference"
| "encode_val etx (VTx (Some t)) = Inr (etx t)"
| "encode_val etx (VList vs) =
     (case collect (map (encode_val etx) vs) of Inl e \<Rightarrow> Inl e
      | Inr rs \<Rightarrow> Inr (RList rs))"

text \<open>
  Modelled from the spec: decoding a field of an expected type (sections 4.1 (b) and 4.4).
  A fixed-size byte array takes a byte string of exactly its size, a number any byte string
  read big-endian, the 64-bit time one of at most eight bytes; anything else is a
  \<open>MalformedEncoding\<close>.
\<close>

definition decode_fixed :: "nat \<Rightarrow> rlp \<Rightarrow> error + nat" where
  "decode_fixed n r =
     (case r of RBytes bs \<Rightarrow> if length bs = n then Inr (be_nat bs) else Inl MalformedEncoding
      | RList _ \<Rightarrow> Inl MalformedEncoding)"

definition decode_hash :: "rlp \<Rightarrow> error + hash" where
  "decode_hash r = err_bind (decode_fixed 32 r) (\<lambda>n. Inr (of_nat n))"

definition decode_address :: "rlp \<Rightarrow> error + address" where
  "decode_address r = err_bind (decode_fixed 20 r) (\<lambda>n. Inr (of_nat n))"

definition decode_bloom :: "rlp \<Rightarrow> error + bloom" where
  "decode_bloom r = err_bind (decode_fixed 256 r) (\<lambda>n. Inr (of_nat n))"

definition decode_nonce :: "rlp \<Rightarrow> error + 64 word" where
  "decode_nonce r = err_bind (decode_fixed 8 r) (\<lambda>n. Inr (of_nat n))"

definition decode_big :: "rlp \<Rightarrow> error + int ptr" where
  "decode_big r =
     (case r of RBytes bs \<Rightarrow> Inr (Some (int (be_nat bs)))
      | RList _ \<Rightarrow> Inl MalformedEncoding)"

definition decode_uint64 :: "rlp \<Rightarrow> error + 64 word" where
  "decode_uint64 r =
     (case r of RBytes bs \<Rightarrow>
        if length bs \<le> 8 then Inr (of_nat (be_nat bs)) else Inl MalformedEncoding
      | RList _ \<Rightarrow> Inl MalformedEncoding)"

definition decode_string :: "rlp \<Rightarrow> error + string" where
  "decode_string r =
     (case r of RBytes bs \<Rightarrow> Inr (string_of_bytes bs)
      | RList _ \<Rightarrow> Inl MalformedEncoding)"

text \<open>
  Modelled from the spec: decoding a header, the list of its fifteen fields in the declared
  order (sections 3 and 4.2), into a fresh header object.
\<close>

definition decode_header :: "rlp \<Rightarrow> error + Header ptr" where
  "decode_header r =
     (case r of
        RList [r1, r2, r3, r4, r5, r6, r7, r8, r9, r10, r11, r12, r13, r14, r15] \<Rightarrow>
          err_bind (decode_hash r1) (\<lambda>parentHash.
          err_bind (decode_hash r2) (\<lambda>uncleHash.
          err_bind (decode_address r3) (\<lambda>coinbase.
          err_bind (decode_hash r4) (\<lambda>root.
          err_bind (decode_hash r5) (\<lambda>txHash.
          err_bind (decode_hash r6) (\<lambda>receiptHash.
          err_bind (decode_bloom r7) (\<lambda>bloom.
          err_bind (decode_big r8) (\<lambda>difficulty.
          err_bind (decode_big r9) (\<lambda>number.
          err_bind (decode_big r10) (\<lambda>gasLimit.
          err_bind (decode_big r11) (\<lambda>gasUsed.
          err_bind (decode_uint64 r12) (\<lambda>time.
          err_bind (decode_string r13) (\<lambda>extra.
          err_bind (decode_hash r14) (\<lambda>mixDigest.
          err_bind (decode_nonce r15) (\<lambda>nonce.
          Inr (Some \<lparr>ParentHash = parentHash, UncleHash = uncleHash, Coinbase = coinbase,
                      Root = root, TxHash = txHash, ReceiptHash = receiptHash,
                      Bloom = bloom, Difficulty = difficulty, Number = number,
                      GasLimit = gasLimit, GasUsed = gasUsed, Time = time, Extra = extra,
                      MixDigest = mixDigest, Nonce = nonce\<rparr>))))))))))))))))
      | _ \<Rightarrow> Inl MalformedEncoding)"

definition decode_list :: "(rlp \<Rightarrow> error + 'a) \<Rightarrow> rlp \<Rightarrow> error + 'a list" where
  "decode_list d r =
     (case r of RList rs \<Rightarrow> collect (map d rs) | RBytes _ \<Rightarrow> Inl MalformedEncoding)"

text \<open>A transaction is opaque: \<open>dtx\<close> is its decoder, \<open>None\<close> where the encoding is not
  one of a transaction.\<close>

definition decode_tx :: "(rlp \<Rightarrow> 'tx option) \<Rightarrow> rlp \<Rightarrow> error + 'tx ptr" where
  "decode_tx dtx r = (case dtx r of None \<Rightarrow> Inl MalformedEncoding | Some t \<Rightarrow> Inr (Some t))"

text \<open>The local \<open>extblock\<close> struct of \<open>Block.DecodeRLP\<close>.\<close>

record 'tx extblock =
  ext_Header :: "Header ptr"
  ext_Txs :: "'tx ptr list"
  ext_Uncles :: "Header ptr list"
  ext_TD :: "int ptr"

text \<open>
  Modelled from the spec: \<open>rlp.Stream.Decode\<close> into the \<open>extblock\<close> struct (section 4.4).
  The stream must hold a list of the struct's fields in order, header, transactions and
  uncles, with the total difficulty optional: when it is absent the field stays \<open>nil\<close>.
  A stream of any other shape, or with a field of the wrong type, is a
  \<open>MalformedEncoding\<close>.
\<close>

definition Stream_Decode :: "(rlp \<Rightarrow> 'tx option) \<Rightarrow> rlp \<Rightarrow> error + 'tx extblock" where
  "Stream_Decode dtx s =
     (case s of
        RList [rh, rt, ru] \<Rightarrow>
          err_bind (decode_header rh) (\<lambda>h.
          err_bind (decode_list (decode_tx dtx) rt) (\<lambda>txs.
          err_bind (decode_list decode_header ru) (\<lambda>us.
          Inr \<lparr>ext_Header = h, ext_Txs = txs, ext_Uncles = us, ext_TD = None\<rparr>)))
      | RList [rh, rt, ru, rd] \<Rightarrow>
          err_bind (decode_header rh) (\<lambda>h.
          err_bind (decode_list (decode_tx dtx) rt) (\<lambda>txs.
          err_bind (decode_list decode_header ru) (\<lambda>us.
          err_bind (decode_big rd) (\<lambda>td.
          Inr \<lparr>ext_Header = h, ext_Txs = txs, ext_Uncles = us, ext_TD = td\<rparr>))))
      | _ \<Rightarrow> Inl MalformedEncoding)"

text \<open>\<open>Block.DecodeRLP\<close>: the returned error (\<open>None\<close> is \<open>nil\<close>) and the block after the
  call. The stream decoder is the parameter \<open>dec\<close>.\<close>

definition DecodeRLP_with ::
  "('s \<Rightarrow> error + 'tx extblock) \<Rightarrow> ('tx, 'rc) Block \<Rightarrow> 's \<Rightarrow> error option \<times> ('tx, 'rc) Block" where
  "DecodeRLP_with dec self s =
     (case dec s of
        Inl err \<Rightarrow> (Some err, self)
      | Inr extblock \<Rightarrow>
          (None, self\<lparr>header := ext_Header extblock, uncles := ext_Uncles extblock,
                      transactions := ext_Txs extblock, Td := ext_TD extblock\<rparr>))"

definition DecodeRLP ::
  "(rlp \<Rightarrow> 'tx option) \<Rightarrow> ('tx, 'rc) Block \<Rightarrow> rlp \<Rightarrow> error option \<times> ('tx, 'rc) Block" where
  "DecodeRLP dtx self s = DecodeRLP_with (Stream_Decode dtx) self s"

text \<open>
  Modelled from the spec: the expected shape \<open>{header, transactions, uncles,
  [totalDifficulty]}\<close> and its field types (section 4.4), as a predicate on streams.
\<close>

definition is_bytes :: "rlp \<Rightarrow> bool" where
  "is_bytes r = (case r of RBytes _ \<Rightarrow> True | RList _ \<Rightarrow> False)"

definition is_bytes_of :: "nat \<Rightarrow> rlp \<Rightarrow> bool" where
  "is_bytes_of n r = (case r of RBytes bs \<Rightarrow> length bs = n | RList _ \<Rightarrow> False)"

definition is_bytes_upto :: "nat \<Rightarrow> rlp \<Rightarrow> bool" where
  "is_bytes_upto n r = (case r of RBytes bs \<Rightarrow> length bs \<le> n | RList _ \<Rightarrow> False)"

definition is_header :: "rlp \<Rightarrow> bool" where
  "is_header r =
     (case r of
        RList [r1, r2, r3, r4, r5, r6, r7, r8, r9, r10, r11, r12, r13, r14, r15] \<Rightarrow>
          is_bytes_of 32 r1 \<and> is_bytes_of 32 r2 \<and> is_bytes_of 20 r3 \<and> is_bytes_of 32 r4
          \<and> is_bytes_of 32 r5 \<and> is_bytes_of 32 r6 \<and> is_bytes_of 256 r7 \<and> is_bytes r8
          \<and> is_bytes r9 \<and> is_bytes r10 \<and> is_bytes r11 \<and> is_bytes_upto 8 r12
          \<and> is_bytes r13 \<and> is_bytes_of 32 r14 \<and> is_bytes_of 8 r15
      | _ \<Rightarrow> False)"

definition is_list_of :: "(rlp \<Rightarrow> bool) \<Rightarrow> rlp \<Rightarrow> bool" where
  "is_list_of P r = (case r of RList rs \<Rightarrow> list_all P rs | RBytes _ \<Rightarrow> False)"

definition conforms :: "(rlp \<Rightarrow> 'tx option) \<Rightarrow> rlp \<Rightarrow> bool" where
  "conforms dtx s =
     (case s of
        RList [rh, rt, ru] \<Rightarrow>
          is_header rh \<and> is_list_of (\<lambda>r. dtx r \<noteq> None) rt \<and> is_list_of is_header ru
      | RList [rh, rt, ru, rd] \<Rightarrow>
          is_header rh \<and> is_list_of (\<lambda>r. dtx r \<noteq> None) rt \<and> is_list_of is_header ru
          \<and> is_bytes rd
      | _ \<Rightarrow> False)"

text \<open>A header whose numeric fields are set and not negative, as the data model of the
  specification has them.\<close>

definition unsigned_big :: "int ptr \<Rightarrow> bool" where
  "unsigned_big p = (case p of None \<Rightarrow> False | Some n \<Rightarrow> 0 \<le> n)"

definition header_encodable :: "Header ptr \<Rightarrow> bool" where
  "header_encodable p =
     (case p of None \<Rightarrow> False
      | Some h \<Rightarrow> unsigned_big (Difficulty h) \<and> unsigned_big (Number h)
                 \<and> unsigned_big (GasLimit h) \<and> unsigned_big (GasUsed h))"


definition payload :: "rlp \<Rightarrow> byte list" where
  "payload r = (case r of RBytes bs \<Rightarrow> bs | RList _ \<Rightarrow> [])"

text \<open>What the encoder keeps of a number: zero for \<open>nil\<close>, the magnitude otherwise.\<close>

definition magnitude :: "int ptr \<Rightarrow> int ptr" where
  "magnitude p = (case p of None \<Rightarrow> Some 0 | Some n \<Rightarrow> Some \<bar>n\<bar>)"

text \<open>Decoding into the block \<open>self\<close> the canonical encoding of the value \<open>v\<close>.\<close>

definition decode_encoded ::
  "('tx \<Rightarrow> rlp) \<Rightarrow> (rlp \<Rightarrow> 'tx option) \<Rightarrow> 'tx val \<Rightarrow> ('tx, 'rc) Block
   \<Rightarrow> error option \<times> ('tx, 'rc) Block" where
  "decode_encoded etx dtx v self =
     (case encode_val etx v of Inl e \<Rightarrow> (Some e, self) | Inr r \<Rightarrow> DecodeRLP dtx self r)"

definition block_key :: "('tx, 'rc) Block ptr \<Rightarrow> int" where
  "block_key b = (case number_of b of None \<Rightarrow> 0 | Some n \<Rightarrow> n)"

section \<open>Sample values\<close>

text \<open>The digest the repository's \<open>DeriveSha\<close> gives the empty list is the root of the empty
  trie, a constant of the protocol and not zero. The sample collaborators agree with it on
  the empty list and count elements otherwise; the sample encoding of a value is the sum
  of the numbers in it, and the sample hash reads those bytes back as a number.
  Transactions are byte strings that encode as themselves.\<close>

definition empty_root_digest :: hash where
  "empty_root_digest = 0x56e81f171bcc55a6ff8345e692c0f86e5b48e01b996cadc001622fb5e363b421"

fun field_sum :: "field \<Rightarrow> nat" where
  "field_sum (FHash w) = unat w"
| "field_sum (FAddress w) = unat w"
| "field_sum (FBloom w) = unat w"
| "field_sum (FBig None) = 0"
| "field_sum (FBig (Some n)) = nat \<bar>n\<bar>"
| "field_sum (FUint64 w) = unat w"
| "field_sum (FString s) = length s"
| "field_sum (FNonce w) = unat w"

fun val_sum :: "byte list val \<Rightarrow> nat" where
  "val_sum (VField f) = field_sum f"
| "val_sum (VHeader None) = 0"
| "val_sum (VHeader (Some h)) = sum_list (map field_sum (rlpData h True))"
| "val_sum (VTx None) = 0"
| "val_sum (VTx (Some t)) = length t"
| "val_sum (VList vs) = sum_list (map val_sum vs)"

definition sample_collab :: "(byte list, nat) collab" where
  "sample_collab =
     \<lparr>DeriveSha_txs = (\<lambda>txs. empty_root_digest + of_nat (length txs)),
      DeriveSha_rcs = (\<lambda>rcs. empty_root_digest + of_nat (length rcs)),
      CreateBloom = (\<lambda>rcs. of_nat (length rcs)),
      Encode = (\<lambda>v. be_min (val_sum v)),
      Sha3 = (\<lambda>bs. bs),
      BytesToHash = (\<lambda>bs. of_nat (be_nat bs))\<rparr>"

definition sample_etx :: "byte list \<Rightarrow> rlp" where
  "sample_etx t = RBytes t"

definition sample_dtx :: "rlp \<Rightarrow> byte list option" where
  "sample_dtx r = (case r of RBytes bs \<Rightarrow> Some bs | RList _ \<Rightarrow> None)"

definition sample_header :: Header where
  "sample_header =
     \<lparr>ParentHash = 1, UncleHash = 0, Coinbase = 2, Root = 3, TxHash = 0, ReceiptHash = 0,
      Bloom = 0, Difficulty = Some 131072, Number = Some 1, GasLimit = Some 3141592,
      GasUsed = Some 0, Time = 1426516743, Extra = ''x'', MixDigest = 0, Nonce = 42\<rparr>"

definition sample_block :: "(byte list, nat) Block" where
  "sample_block =
     \<lparr>HeaderHash = 0, ParentHeaderHash = 0, header = Some sample_header,
      uncles = [Some sample_header], transactions = [Some [1, 2, 3]], Td = Some 7,
      receipts = [], Reward = None\<rparr>"


definition numbered_block :: "int \<Rightarrow> (byte list, nat) Block ptr" where
  "numbered_block n = Some (NewBlockWithHeader (Some (sample_header\<lparr>Number := Some n\<rparr>)))"

section \<open>Mutators keep the derived header fields in step\<close>


lemma headers_RlpData_nil:
  "\<not> list_all (\<lambda>u. u \<noteq> None) us
   \<Longrightarrow> headers_RlpData us = (Inl NilPointerDereference :: error + 'tx val)"
proof -
  assume "\<not> list_all (\<lambda>u. u \<noteq> None) us"
  then have "collect (map Header_RlpData us) = (Inl NilPointerDereference :: error + 'tx val list)"
  proof (induction us)
    case Nil
    then show ?case by simp
  next
    case (Cons u us)
    then show ?case
      by (cases u) (auto simp add: Header_RlpData_def Header_rlpData_def split: sum.splits)
  qed
  then show ?thesis by (simp add: headers_RlpData_def)
qed







section \<open>Sorting by number\<close>

lemma Number_by_numbered:
  assumes "number_of b1 \<noteq> None" and "number_of b2 \<noteq> None"
  shows "Number_by b1 b2 = Inr (block_key b1 < block_key b2)"
  using assms
  by (auto simp add: number_of_def Number_by_def Block_Header_def Header_Number_def
        big_Cmp_def block_key_def split: option.splits)

text \<open>The sorter as a \<open>sort.Interface\<close>: on numbered blocks \<open>Less\<close> never panics and is the
  strict order of the numbers, a transitive ordering; \<open>Swap\<close> exchanges two elements, so
  a sequence of swaps permutes the slice and keeps the comparison.\<close>

lemma Less_numbered:
  assumes "by_fn d = Number_by" and "\<forall>b \<in> set (blocks d). number_of b \<noteq> None"
    and "i < length (blocks d)" and "j < length (blocks d)"
  shows "Less d i j = Inr (block_key (blocks d ! i) < block_key (blocks d ! j))"
  using assms by (simp add: Less_def Number_by_numbered)

lemma Swap_permutes:
  assumes "i < length (blocks d)" and "j < length (blocks d)"
  shows "\<exists>d'. Swap d i j = Inr d' \<and> mset (blocks d') = mset (blocks d)
           \<and> by_fn d' = by_fn d
           \<and> blocks d' ! i = blocks d ! j \<and> blocks d' ! j = blocks d ! i"
  using assms by (auto simp add: Swap_def mset_swap nth_list_update)

lemma apply_swaps_permutes:
  "apply_swaps d ps = Inr d' \<Longrightarrow> mset (blocks d') = mset (blocks d) \<and> by_fn d' = by_fn d"
proof (induction ps arbitrary: d)
  case Nil
  then show ?case by simp
next
  case (Cons p ps)
  obtain i j where p: "p = (i, j)" by (cases p)
  with Cons.prems obtain d1 where s: "Swap d i j = Inr d1" "apply_swaps d1 ps = Inr d'"
    by (auto split: sum.splits)
  from s(1) have "mset (blocks d1) = mset (blocks d) \<and> by_fn d1 = by_fn d"
    by (auto simp add: Swap_def mset_swap split: if_splits)
  with Cons.IH [OF s(2)] show ?case by simp
qed

lemma apply_swaps_append:
  "apply_swaps d ps = Inr d1 \<Longrightarrow> apply_swaps d (ps @ qs) = apply_swaps d1 qs"
proof (induction ps arbitrary: d)
  case Nil
  then show ?case by simp
next
  case (Cons p ps)
  obtain i j where p: "p = (i, j)" by (cases p)
  with Cons.prems obtain d2 where s: "Swap d i j = Inr d2" "apply_swaps d2 ps = Inr d1"
    by (auto split: sum.splits)
  from Cons.IH [OF s(2)] s(1) p show ?case by simp
qed

lemma transitive_ordering_iff:
  "transitive_ordering f bs \<longleftrightarrow>
     (\<forall>x \<in> set bs. \<forall>y \<in> set bs. f x y = Inr True \<or> f x y = Inr False)
     \<and> (\<forall>x \<in> set bs. f x x = Inr False)
     \<and> (\<forall>x \<in> set bs. \<forall>y \<in> set bs. \<forall>z \<in> set bs.
          f x y = Inr True \<and> f y z = Inr True \<longrightarrow> f x z = Inr True)
     \<and> (\<forall>x \<in> set bs. \<forall>y \<in> set bs. \<forall>z \<in> set bs.
          f x y = Inr False \<and> f y z = Inr False \<longrightarrow> f x z = Inr False)"
  by (simp add: transitive_ordering_def list_all_iff)

lemma transitive_ordering_set:
  "set bs = set bs' \<Longrightarrow> transitive_ordering f bs = transitive_ordering f bs'"
  by (simp add: transitive_ordering_iff)

lemma ordering_total:
  assumes "transitive_ordering f bs" and "x \<in> set bs" and "y \<in> set bs"
  shows "f x y = Inr True \<or> f x y = Inr False"
  using assms unfolding transitive_ordering_iff by blast

lemma ordering_asym:
  assumes "transitive_ordering f bs" and "x \<in> set bs" and "y \<in> set bs"
    and "f x y = Inr True"
  shows "f y x = Inr False"
proof (rule ccontr)
  assume "f y x \<noteq> Inr False"
  with ordering_total [OF assms(1,3,2)] have "f y x = Inr True" by blast
  with assms have "f x x = Inr True" unfolding transitive_ordering_iff by blast
  moreover from assms have "f x x = Inr False" unfolding transitive_ordering_iff by blast
  ultimately show False by simp
qed

lemma ordering_fails_trans:
  assumes "transitive_ordering f bs" and "x \<in> set bs" and "y \<in> set bs" and "z \<in> set bs"
    and "f x y = Inr False" and "f y z = Inr False"
  shows "f x z = Inr False"
  using assms unfolding transitive_ordering_iff by blast

lemma Number_by_ordering:
  assumes "\<forall>b \<in> set bls. number_of b \<noteq> None"
  shows "transitive_ordering Number_by bls"
  unfolding transitive_ordering_iff using assms
  by (auto simp add: Number_by_numbered)

lemma swap_adjacent:
  "(A @ y # x # R)[Suc (length A) := (A @ y # x # R) ! length A,
                    length A := (A @ y # x # R) ! Suc (length A)] = A @ x # y # R"
  by (simp add: nth_append list_update_append)

lemma Less_adjacent:
  assumes "blocks d = A @ y # x # R"
  shows "Less d (Suc (length A)) (length A) = by_fn d x y"
  using assms by (simp add: Less_def nth_append)

lemma Swap_adjacent:
  assumes "blocks d = A @ y # x # R"
  shows "Swap d (Suc (length A)) (length A) = Inr (d\<lparr>blocks := A @ x # y # R\<rparr>)"
proof -
  have "(blocks d)[Suc (length A) := blocks d ! length A,
                    length A := blocks d ! Suc (length A)] = A @ x # y # R"
    unfolding assms by (rule swap_adjacent)
  then show ?thesis by (simp add: Swap_def assms)
qed

text \<open>The inner loop, started on the element \<open>x\<close> that follows the prefix \<open>A\<close>, moves \<open>x\<close>
  down into \<open>A\<close> by swaps and touches nothing behind it; an ascending prefix stays
  ascending.\<close>

lemma insertionSort_inner_inserts:
  assumes "transitive_ordering (by_fn d) (blocks d)" and "blocks d = A @ x # R"
  shows "\<exists>A' ps. insertionSort_inner d 0 (length A) = Inr (d\<lparr>blocks := A' @ R\<rparr>)
           \<and> apply_swaps d ps = Inr (d\<lparr>blocks := A' @ R\<rparr>)
           \<and> mset A' = add_mset x (mset A)
           \<and> (ascending (by_fn d) A \<longrightarrow> ascending (by_fn d) A')"
  using assms
proof (induction A arbitrary: d R rule: rev_induct)
  case Nil
  have "d\<lparr>blocks := [x] @ R\<rparr> = d" using Nil.prems(2) by simp
  then have "insertionSort_inner d 0 (length ([] :: ('a, 'b) Block ptr list))
      = Inr (d\<lparr>blocks := [x] @ R\<rparr>)"
    and "apply_swaps d [] = Inr (d\<lparr>blocks := [x] @ R\<rparr>)" by simp_all
  then show ?case
    by (intro exI [of _ "[x]"] exI [of _ "[]"]) (simp add: ascending_def)
next
  case (snoc y A)
  let ?f = "by_fn d"
  have bl: "blocks d = A @ y # x # R" using snoc.prems(2) by simp
  have mem: "x \<in> set (blocks d)" "y \<in> set (blocks d)" "set A \<subseteq> set (blocks d)"
    using bl by auto
  have less: "Less d (Suc (length A)) (length A) = ?f x y"
    using bl by (rule Less_adjacent)
  from ordering_total [OF snoc.prems(1) mem(1,2)]
  consider (before) "?f x y = Inr True" | (stay) "?f x y = Inr False" by blast
  then show ?case
  proof cases
    case before
    let ?d = "d\<lparr>blocks := A @ x # y # R\<rparr>"
    have sw: "Swap d (Suc (length A)) (length A) = Inr ?d"
      using bl by (rule Swap_adjacent)
    have "set (blocks ?d) = set (blocks d)" using bl by auto
    then have ord: "transitive_ordering (by_fn ?d) (blocks ?d)"
      using snoc.prems(1) transitive_ordering_set [of "blocks ?d" "blocks d" ?f] by simp
    have "\<exists>A' ps. insertionSort_inner ?d 0 (length A) = Inr (?d\<lparr>blocks := A' @ y # R\<rparr>)
           \<and> apply_swaps ?d ps = Inr (?d\<lparr>blocks := A' @ y # R\<rparr>)
           \<and> mset A' = add_mset x (mset A)
           \<and> (ascending (by_fn ?d) A \<longrightarrow> ascending (by_fn ?d) A')"
      using ord by (intro snoc.IH) simp_all
    then obtain A' ps
      where A': "insertionSort_inner ?d 0 (length A) = Inr (d\<lparr>blocks := A' @ y # R\<rparr>)"
        "apply_swaps ?d ps = Inr (d\<lparr>blocks := A' @ y # R\<rparr>)"
        "mset A' = add_mset x (mset A)"
        "ascending ?f A \<longrightarrow> ascending ?f A'" by auto
    have run: "insertionSort_inner d 0 (length (A @ [y])) = Inr (d\<lparr>blocks := (A' @ [y]) @ R\<rparr>)"
      using less sw A'(1) before by simp
    have swaps: "apply_swaps d ((Suc (length A), length A) # ps)
        = Inr (d\<lparr>blocks := (A' @ [y]) @ R\<rparr>)"
      using sw A'(2) by simp
    have setA: "set A' = insert x (set A)"
      using A'(3) by (metis set_mset_add_mset_insert set_mset_mset)
    have yx: "?f y x = Inr False"
      using snoc.prems(1) mem(1,2) before by (rule ordering_asym)
    have srt: "ascending ?f (A @ [y]) \<longrightarrow> ascending ?f (A' @ [y])"
      using A'(4) yx setA by (auto simp add: ascending_def sorted_wrt_append)
    from run swaps A'(3) srt show ?thesis
      by (intro exI [of _ "A' @ [y]"] exI [of _ "(Suc (length A), length A) # ps"]) simp
  next
    case stay
    have same: "d\<lparr>blocks := (A @ [y, x]) @ R\<rparr> = d" using bl by simp
    then have run:
      "insertionSort_inner d 0 (length (A @ [y])) = Inr (d\<lparr>blocks := (A @ [y, x]) @ R\<rparr>)"
      using less stay by simp
    have swaps: "apply_swaps d [] = Inr (d\<lparr>blocks := (A @ [y, x]) @ R\<rparr>)"
      using same by simp
    have srt: "ascending ?f (A @ [y]) \<longrightarrow> ascending ?f (A @ [y, x])"
    proof
      assume asc: "ascending ?f (A @ [y])"
      then have ya: "\<forall>a \<in> set A. ?f y a = Inr False"
        by (simp add: ascending_def sorted_wrt_append)
      have "\<forall>a \<in> set A. ?f x a = Inr False"
      proof
        fix a assume a: "a \<in> set A"
        with mem(3) have "a \<in> set (blocks d)" by blast
        with snoc.prems(1) mem(1,2) show "?f x a = Inr False"
          using stay ya a by (intro ordering_fails_trans [of ?f "blocks d" x y a]) simp_all
      qed
      with asc stay show "ascending ?f (A @ [y, x])"
        by (auto simp add: ascending_def sorted_wrt_append)
    qed
    from run swaps srt show ?thesis
      by (intro exI [of _ "A @ [y, x]"] exI [of _ "[]"]) simp
  qed
qed

text \<open>The outer loop with an ascending prefix \<open>P\<close> before index \<open>i\<close> sorts the whole
  slice.\<close>

lemma insertionSort_outer_sorts:
  assumes "transitive_ordering (by_fn d) (blocks d)" and "blocks d = P @ S"
    and "ascending (by_fn d) P"
  shows "\<exists>ys ps. insertionSort_outer d 0 (length P) (length (P @ S)) = Inr (d\<lparr>blocks := ys\<rparr>)
           \<and> apply_swaps d ps = Inr (d\<lparr>blocks := ys\<rparr>)
           \<and> mset ys = mset (P @ S) \<and> ascending (by_fn d) ys"
  using assms
proof (induction S arbitrary: d P)
  case Nil
  have "d\<lparr>blocks := P\<rparr> = d" using Nil.prems(2) by simp
  then have "insertionSort_outer d 0 (length P) (length (P @ [])) = Inr (d\<lparr>blocks := P\<rparr>)"
    and "apply_swaps d [] = Inr (d\<lparr>blocks := P\<rparr>)" by simp_all
  with Nil.prems(3) show ?case by (intro exI [of _ P] exI [of _ "[]"]) simp
next
  case (Cons x S)
  have "\<exists>A' ps. insertionSort_inner d 0 (length P) = Inr (d\<lparr>blocks := A' @ S\<rparr>)
           \<and> apply_swaps d ps = Inr (d\<lparr>blocks := A' @ S\<rparr>)
           \<and> mset A' = add_mset x (mset P)
           \<and> (ascending (by_fn d) P \<longrightarrow> ascending (by_fn d) A')"
    using Cons.prems(1,2) by (rule insertionSort_inner_inserts)
  then obtain A' ps where A': "insertionSort_inner d 0 (length P) = Inr (d\<lparr>blocks := A' @ S\<rparr>)"
    "apply_swaps d ps = Inr (d\<lparr>blocks := A' @ S\<rparr>)"
    "mset A' = add_mset x (mset P)" "ascending (by_fn d) A'"
    using Cons.prems(3) by blast
  let ?d = "d\<lparr>blocks := A' @ S\<rparr>"
  have len: "length A' = Suc (length P)"
    using A'(3) by (metis size_add_mset size_mset)
  have "set A' = insert x (set P)"
    using A'(3) by (metis set_mset_add_mset_insert set_mset_mset)
  then have "set (blocks ?d) = set (blocks d)" using Cons.prems(2) by auto
  then have ord: "transitive_ordering (by_fn ?d) (blocks ?d)"
    using Cons.prems(1) transitive_ordering_set [of "blocks ?d" "blocks d" "by_fn d"] by simp
  have "\<exists>ys qs. insertionSort_outer ?d 0 (length A') (length (A' @ S)) = Inr (?d\<lparr>blocks := ys\<rparr>)
           \<and> apply_swaps ?d qs = Inr (?d\<lparr>blocks := ys\<rparr>)
           \<and> mset ys = mset (A' @ S) \<and> ascending (by_fn ?d) ys"
    using ord A'(4) by (intro Cons.IH) simp_all
  then obtain ys qs
    where ys: "insertionSort_outer ?d 0 (Suc (length P)) (Suc (length P + length S))
        = Inr (d\<lparr>blocks := ys\<rparr>)"
      "apply_swaps ?d qs = Inr (d\<lparr>blocks := ys\<rparr>)"
      "mset ys = mset (A' @ S)" "ascending (by_fn d) ys"
    by (auto simp add: len)
  have run: "insertionSort_outer d 0 (length P) (length (P @ x # S)) = Inr (d\<lparr>blocks := ys\<rparr>)"
    using A'(1) ys(1) by (subst insertionSort_outer.simps) simp
  have swaps: "apply_swaps d (ps @ qs) = Inr (d\<lparr>blocks := ys\<rparr>)"
    using apply_swaps_append [OF A'(2), of qs] ys(2) by simp
  from run swaps ys(3,4) A'(3) show ?case
    by (intro exI [of _ ys] exI [of _ "ps @ qs"]) simp
qed

text \<open>Insertion over the whole slice does what the library promises of \<open>sort.Sort\<close>.\<close>

lemma short_Sort_meets_contract: "meets_sort_contract short_Sort"
  unfolding meets_sort_contract_def
proof (intro allI impI)
  fix d :: "('a, 'b) blockSorter"
  assume ord: "transitive_ordering (by_fn d) (blocks d)"
  have "\<exists>ys ps. short_Sort d = Inr (d\<lparr>blocks := ys\<rparr>)
      \<and> apply_swaps d ps = Inr (d\<lparr>blocks := ys\<rparr>)
      \<and> mset ys = mset (blocks d) \<and> ascending (by_fn d) ys"
  proof (cases "blocks d")
    case Nil
    then have "d\<lparr>blocks := []\<rparr> = d" by simp
    with Nil have "short_Sort d = Inr (d\<lparr>blocks := []\<rparr>)"
      and "apply_swaps d [] = Inr (d\<lparr>blocks := []\<rparr>)"
      by (simp_all add: short_Sort_def Len_def insertionSort_def)
    with Nil show ?thesis
      by (intro exI [of _ "[]"]) (simp add: ascending_def)
  next
    case (Cons x S)
    have "\<exists>ys ps. insertionSort_outer d 0 (length [x]) (length ([x] @ S))
             = Inr (d\<lparr>blocks := ys\<rparr>)
           \<and> apply_swaps d ps = Inr (d\<lparr>blocks := ys\<rparr>)
           \<and> mset ys = mset ([x] @ S) \<and> ascending (by_fn d) ys"
      using ord Cons by (intro insertionSort_outer_sorts) (simp_all add: ascending_def)
    with Cons show ?thesis
      by (simp add: short_Sort_def Len_def insertionSort_def)
  qed
  then obtain ys ps where ys: "short_Sort d = Inr (d\<lparr>blocks := ys\<rparr>)"
    "apply_swaps d ps = Inr (d\<lparr>blocks := ys\<rparr>)" "ascending (by_fn d) ys" by blast
  let ?d = "d\<lparr>blocks := ys\<rparr>"
  have "Less ?d (Suc i) i = Inr False" if "Suc i < Len ?d" for i
  proof -
    from that have i: "i < Suc i" "Suc i < length ys" by (simp_all add: Len_def)
    from ys(3) i have "by_fn d (ys ! Suc i) (ys ! i) = Inr False"
      unfolding ascending_def by (rule sorted_wrt_nth_less)
    with i show ?thesis by (simp add: Less_def)
  qed
  with ys(1,2)
  show "\<exists>d' ps. short_Sort d = Inr d' \<and> apply_swaps d ps = Inr d'
           \<and> (\<forall>i. Suc i < Len d' \<longrightarrow> Less d' (Suc i) i = Inr False)"
    by blast
qed

lemma numbered_keys:
  "\<forall>b \<in> set ys. number_of b \<noteq> None \<Longrightarrow> map number_of ys = map Some (map block_key ys)"
  by (induction ys) (auto simp add: block_key_def)

section \<open>Field encodings are read back\<close>

lemma be_nat_snoc: "be_nat (bs @ [b]) = be_nat bs * 256 + unat b"
  by (simp add: be_nat_def)

lemma be_nat_Nil: "be_nat [] = 0"
  by (simp add: be_nat_def)

lemma unat_byte_of_nat_mod: "unat (of_nat (n mod 256) :: byte) = n mod 256"
  by (simp add: unat_of_nat)

lemma be_nat_be_min: "be_nat (be_min n) = n"
proof (induction n rule: be_min.induct)
  case (1 n)
  show ?case
  proof (cases "n = 0")
    case True
    then show ?thesis by (simp add: be_min.simps be_nat_Nil)
  next
    case False
    with "1" have "be_nat (be_min (n div 256)) = n div 256" by simp
    with False show ?thesis
      by (subst be_min.simps) (simp add: be_nat_snoc unat_byte_of_nat_mod)
  qed
qed

lemma length_be_fixed: "length (be_fixed k n) = k"
  by (induction k arbitrary: n) simp_all

lemma be_nat_be_fixed: "be_nat (be_fixed k n) = n mod 256 ^ k"
proof (induction k arbitrary: n)
  case 0
  then show ?case by (simp add: be_nat_Nil)
next
  case (Suc k)
  have "n mod (256 * 256 ^ k) = (n div 256) mod 256 ^ k * 256 + n mod 256"
    by (simp add: mod_mult2_eq)
  with Suc show ?case
    by (simp add: be_nat_snoc unat_byte_of_nat_mod)
qed

lemma length_be_min_le: "n < 256 ^ k \<Longrightarrow> length (be_min n) \<le> k"
proof (induction n arbitrary: k rule: be_min.induct)
  case (1 n)
  show ?case
  proof (cases "n = 0")
    case True
    then show ?thesis by (simp add: be_min.simps)
  next
    case False
    with "1.prems" obtain j where k: "k = Suc j" by (cases k) auto
    with "1.prems" have "n div 256 < 256 ^ j"
      by (simp add: less_mult_imp_div_less mult.commute)
    with "1.IH" False have "length (be_min (n div 256)) \<le> j" by simp
    with False k show ?thesis by (subst be_min.simps) simp
  qed
qed

lemma word_bytes_read_back:
  fixes w :: "'a::len word"
  assumes "LENGTH('a) = 8 * k"
  shows "of_nat (be_nat (be_fixed k (unat w))) = w"
proof -
  have "unat w < 2 ^ LENGTH('a)" by (rule unsigned_less)
  also have "(2::nat) ^ LENGTH('a) = 256 ^ k"
    by (simp add: assms power_mult)
  finally show ?thesis by (simp add: be_nat_be_fixed)
qed

lemma string_bytes_read_back: "string_of_bytes (bytes_of_string s) = s"
  by (induction s) (simp_all add: string_of_bytes_def bytes_of_string_def unat_of_nat)

lemma decode_hash_encode: "decode_hash (encode_field (FHash w)) = Inr w"
  by (simp add: decode_hash_def decode_fixed_def err_bind_def length_be_fixed
        word_bytes_read_back)

lemma decode_address_encode: "decode_address (encode_field (FAddress w)) = Inr w"
  by (simp add: decode_address_def decode_fixed_def err_bind_def length_be_fixed
        word_bytes_read_back)

lemma decode_bloom_encode: "decode_bloom (encode_field (FBloom w)) = Inr w"
  by (simp add: decode_bloom_def decode_fixed_def err_bind_def length_be_fixed
        word_bytes_read_back)

lemma decode_nonce_encode: "decode_nonce (encode_field (FNonce w)) = Inr w"
  by (simp add: decode_nonce_def decode_fixed_def err_bind_def length_be_fixed
        word_bytes_read_back)

lemma decode_uint64_encode: "decode_uint64 (encode_field (FUint64 w)) = Inr w"
proof -
  have "unat w < 2 ^ LENGTH(64)" by (rule unsigned_less)
  also have "(2::nat) ^ LENGTH(64) = 256 ^ 8" by simp
  finally have "length (be_min (unat w)) \<le> 8" by (rule length_be_min_le)
  then show ?thesis by (simp add: decode_uint64_def be_nat_be_min)
qed

lemma decode_string_encode: "decode_string (encode_field (FString s)) = Inr s"
  by (simp add: decode_string_def string_bytes_read_back)

text \<open>A number comes back as its magnitude: the sign and the \<open>nil\<close> are lost.\<close>

lemma decode_big_encode: "decode_big (encode_field (FBig p)) = Inr (magnitude p)"
  by (cases p) (simp_all add: magnitude_def decode_big_def be_nat_be_min be_nat_Nil)

lemma magnitude_unsigned: "unsigned_big p \<Longrightarrow> magnitude p = p"
  by (cases p) (simp_all add: unsigned_big_def magnitude_def)

lemma decode_header_encode:
  "decode_header (RList (map encode_field (rlpData h True))) =
     Inr (Some (h\<lparr>Difficulty := magnitude (Difficulty h), Number := magnitude (Number h),
                   GasLimit := magnitude (GasLimit h), GasUsed := magnitude (GasUsed h)\<rparr>))"
  unfolding decode_header_def rlpData_def
  by (simp add: err_bind_def decode_hash_encode decode_address_encode decode_bloom_encode
        decode_nonce_encode decode_uint64_encode decode_string_encode decode_big_encode
        del: encode_field.simps)

lemma decode_header_encodable:
  assumes "header_encodable (Some h)"
  shows "decode_header (RList (map encode_field (rlpData h True))) = Inr (Some h)"
proof -
  from assms have "magnitude (Difficulty h) = Difficulty h" "magnitude (Number h) = Number h"
    "magnitude (GasLimit h) = GasLimit h" "magnitude (GasUsed h) = GasUsed h"
    by (simp_all add: header_encodable_def magnitude_unsigned)
  then show ?thesis by (simp add: decode_header_encode)
qed

lemma encode_header_val:
  "encode_val etx (VHeader (Some h)) = Inr (RList (map encode_field (rlpData h True)))"
  by (simp add: Header_rlpData_def)

lemma decode_uncles_encode:
  assumes "list_all header_encodable us"
  shows "\<exists>rs. collect (map (encode_val etx) (map VHeader us)) = Inr rs
           \<and> decode_list decode_header (RList rs) = Inr us"
  using assms
proof (induction us)
  case Nil
  then show ?case by (simp add: decode_list_def)
next
  case (Cons u us)
  from Cons.prems obtain h where u: "u = Some h" "header_encodable (Some h)"
    by (cases u) (simp_all add: header_encodable_def)
  from Cons obtain rs where rs: "collect (map (encode_val etx) (map VHeader us)) = Inr rs"
    "decode_list decode_header (RList rs) = Inr us" by auto
  from u rs show ?case
    by (simp add: decode_list_def encode_header_val decode_header_encodable
          del: encode_val.simps)
qed

lemma decode_txs_encode:
  assumes "list_all (\<lambda>t. t \<noteq> None) txs"
    and "\<And>t. Some t \<in> set txs \<Longrightarrow> dtx (etx t) = Some t"
  shows "\<exists>rs. collect (map (encode_val etx) (map VTx txs)) = Inr rs
           \<and> decode_list (decode_tx dtx) (RList rs) = Inr txs"
  using assms
proof (induction txs)
  case Nil
  then show ?case by (simp add: decode_list_def)
next
  case (Cons t txs)
  from Cons.prems(1) obtain x where t: "t = Some x" by (cases t) simp_all
  with Cons.prems(2) have "dtx (etx x) = Some x" by simp
  then have dx: "decode_tx dtx (etx x) = Inr (Some x)" by (simp add: decode_tx_def)
  from Cons obtain rs where rs: "collect (map (encode_val etx) (map VTx txs)) = Inr rs"
    "decode_list (decode_tx dtx) (RList rs) = Inr txs" by auto
  from t dx rs show ?case
    by (simp add: decode_list_def)
qed

text \<open>The two forms of a block, decoded into any block \<open>B0\<close>.\<close>

lemma decode_network_form:
  assumes "header_encodable (header B)"
    and "list_all header_encodable (uncles B)"
    and "list_all (\<lambda>t. t \<noteq> None) (transactions B)"
    and "\<And>t. Some t \<in> set (transactions B) \<Longrightarrow> dtx (etx t) = Some t"
  shows "decode_encoded etx dtx (Block_RlpData B) B0 =
         (None, B0\<lparr>header := header B, uncles := uncles B,
                    transactions := transactions B, Td := None\<rparr>)"
proof -
  from assms(1) obtain h where h: "header B = Some h" "header_encodable (Some h)"
    by (cases "header B") (simp_all add: header_encodable_def)
  from decode_uncles_encode [OF assms(2), of etx]
  obtain ru where ru: "collect (map (encode_val etx) (map VHeader (uncles B))) = Inr ru"
    "decode_list decode_header (RList ru) = Inr (uncles B)" by blast
  from decode_txs_encode [OF assms(3), of dtx etx] assms(4)
  obtain rt where rt: "collect (map (encode_val etx) (map VTx (transactions B))) = Inr rt"
    "decode_list (decode_tx dtx) (RList rt) = Inr (transactions B)" by blast
  have e: "encode_val etx (Block_RlpData B) =
      Inr (RList [RList (map encode_field (rlpData h True)), RList rt, RList ru])"
    using h ru rt by (simp add: Block_RlpData_def Header_rlpData_def)
  have "Stream_Decode dtx (RList [RList (map encode_field (rlpData h True)), RList rt, RList ru])
      = Inr \<lparr>ext_Header = Some h, ext_Txs = transactions B, ext_Uncles = uncles B,
             ext_TD = None\<rparr>"
    using ru(2) rt(2) decode_header_encodable [OF h(2)]
    by (simp add: Stream_Decode_def err_bind_def)
  with e h show ?thesis
    by (simp add: decode_encoded_def DecodeRLP_def DecodeRLP_with_def)
qed

lemma decode_storage_form:
  assumes "header_encodable (header B)"
    and "list_all header_encodable (uncles B)"
    and "list_all (\<lambda>t. t \<noteq> None) (transactions B)"
    and "\<And>t. Some t \<in> set (transactions B) \<Longrightarrow> dtx (etx t) = Some t"
    and "unsigned_big (Td B)"
  shows "decode_encoded etx dtx (Block_RlpDataForStorage B) B0 =
         (None, B0\<lparr>header := header B, uncles := uncles B,
                    transactions := transactions B, Td := Td B\<rparr>)"
proof -
  from assms(1) obtain h where h: "header B = Some h" "header_encodable (Some h)"
    by (cases "header B") (simp_all add: header_encodable_def)
  from decode_uncles_encode [OF assms(2), of etx]
  obtain ru where ru: "collect (map (encode_val etx) (map VHeader (uncles B))) = Inr ru"
    "decode_list decode_header (RList ru) = Inr (uncles B)" by blast
  from decode_txs_encode [OF assms(3), of dtx etx] assms(4)
  obtain rt where rt: "collect (map (encode_val etx) (map VTx (transactions B))) = Inr rt"
    "decode_list (decode_tx dtx) (RList rt) = Inr (transactions B)" by blast
  have td: "decode_big (encode_field (FBig (Td B))) = Inr (Td B)"
    using assms(5) by (simp add: decode_big_encode magnitude_unsigned del: encode_field.simps)
  have e: "encode_val etx (Block_RlpDataForStorage B) =
      Inr (RList [RList (map encode_field (rlpData h True)), RList rt, RList ru,
                  encode_field (FBig (Td B))])"
    using h ru rt
    by (simp add: Block_RlpDataForStorage_def Header_rlpData_def del: encode_field.simps)
  have "Stream_Decode dtx (RList [RList (map encode_field (rlpData h True)), RList rt, RList ru,
                  encode_field (FBig (Td B))])
      = Inr \<lparr>ext_Header = Some h, ext_Txs = transactions B, ext_Uncles = uncles B,
             ext_TD = Td B\<rparr>"
    using ru(2) rt(2) decode_header_encodable [OF h(2)] td
    by (simp add: Stream_Decode_def err_bind_def del: encode_field.simps)
  with e h show ?thesis
    by (simp add: decode_encoded_def DecodeRLP_def DecodeRLP_with_def)
qed

section \<open>The decoder accepts exactly the expected shape\<close>

lemma decode_fixed_if:
  "decode_fixed n r =
     (if is_bytes_of n r then Inr (be_nat (payload r)) else Inl MalformedEncoding)"
  by (cases r) (simp_all add: decode_fixed_def is_bytes_of_def payload_def)

lemma decode_hash_if:
  "decode_hash r =
     (if is_bytes_of 32 r then Inr (of_nat (be_nat (payload r))) else Inl MalformedEncoding)"
  by (simp add: decode_hash_def decode_fixed_if err_bind_def)

lemma decode_address_if:
  "decode_address r =
     (if is_bytes_of 20 r then Inr (of_nat (be_nat (payload r))) else Inl MalformedEncoding)"
  by (simp add: decode_address_def decode_fixed_if err_bind_def)

lemma decode_bloom_if:
  "decode_bloom r =
     (if is_bytes_of 256 r then Inr (of_nat (be_nat (payload r))) else Inl MalformedEncoding)"
  by (simp add: decode_bloom_def decode_fixed_if err_bind_def)

lemma decode_nonce_if:
  "decode_nonce r =
     (if is_bytes_of 8 r then Inr (of_nat (be_nat (payload r))) else Inl MalformedEncoding)"
  by (simp add: decode_nonce_def decode_fixed_if err_bind_def)

lemma decode_big_if:
  "decode_big r =
     (if is_bytes r then Inr (Some (int (be_nat (payload r)))) else Inl MalformedEncoding)"
  by (cases r) (simp_all add: decode_big_def is_bytes_def payload_def)

lemma decode_uint64_if:
  "decode_uint64 r =
     (if is_bytes_upto 8 r then Inr (of_nat (be_nat (payload r))) else Inl MalformedEncoding)"
  by (cases r) (simp_all add: decode_uint64_def is_bytes_upto_def payload_def)

lemma decode_string_if:
  "decode_string r =
     (if is_bytes r then Inr (string_of_bytes (payload r)) else Inl MalformedEncoding)"
  by (cases r) (simp_all add: decode_string_def is_bytes_def payload_def)

lemmas decode_ifs = decode_hash_if decode_address_if decode_bloom_if decode_nonce_if
  decode_big_if decode_uint64_if decode_string_if

lemma decode_header_cases:
  "(is_header r \<and> (\<exists>v. decode_header r = Inr v))
   \<or> (\<not> is_header r \<and> decode_header r = Inl MalformedEncoding)"
  unfolding is_header_def decode_header_def
  by (simp add: err_bind_def decode_ifs split: rlp.split list.split)

lemma is_header_encode: "is_header (RList (map encode_field (rlpData h True)))"
  using decode_header_cases [of "RList (map encode_field (rlpData h True))"]
  by (simp add: decode_header_encode)

lemma collect_cases:
  assumes "\<And>x. x \<in> set xs \<Longrightarrow>
     (P x \<and> (\<exists>v. d x = Inr v)) \<or> (\<not> P x \<and> d x = Inl MalformedEncoding)"
  shows "(list_all P xs \<and> (\<exists>vs. collect (map d xs) = Inr vs))
       \<or> (\<not> list_all P xs \<and> collect (map d xs) = Inl MalformedEncoding)"
  using assms
proof (induction xs)
  case Nil
  then show ?case by simp
next
  case (Cons x xs)
  have hd: "(P x \<and> (\<exists>v. d x = Inr v)) \<or> (\<not> P x \<and> d x = Inl MalformedEncoding)"
    by (rule Cons.prems) simp
  have tl: "(list_all P xs \<and> (\<exists>vs. collect (map d xs) = Inr vs))
       \<or> (\<not> list_all P xs \<and> collect (map d xs) = Inl MalformedEncoding)"
    by (rule Cons.IH) (simp add: Cons.prems)
  from hd tl show ?case by auto
qed

lemma decode_list_cases:
  assumes "\<And>x. (P x \<and> (\<exists>v. d x = Inr v)) \<or> (\<not> P x \<and> d x = Inl MalformedEncoding)"
  shows "(is_list_of P r \<and> (\<exists>vs. decode_list d r = Inr vs))
       \<or> (\<not> is_list_of P r \<and> decode_list d r = Inl MalformedEncoding)"
proof (cases r)
  case (RBytes bs)
  then show ?thesis by (simp add: is_list_of_def decode_list_def)
next
  case (RList rs)
  with collect_cases [of rs P d] assms show ?thesis
    by (simp add: is_list_of_def decode_list_def)
qed

lemma decode_tx_cases:
  "(dtx r \<noteq> None \<and> (\<exists>v. decode_tx dtx r = Inr v))
   \<or> (\<not> dtx r \<noteq> None \<and> decode_tx dtx r = Inl MalformedEncoding)"
  by (cases "dtx r") (simp_all add: decode_tx_def)

lemma Stream_Decode_3:
  "(conforms dtx (RList [rh, rt, ru])
      \<and> (\<exists>h txs us. Stream_Decode dtx (RList [rh, rt, ru]) =
            Inr \<lparr>ext_Header = h, ext_Txs = txs, ext_Uncles = us, ext_TD = None\<rparr>))
   \<or> (\<not> conforms dtx (RList [rh, rt, ru])
      \<and> Stream_Decode dtx (RList [rh, rt, ru]) = Inl MalformedEncoding)"
  using decode_header_cases [of rh]
    decode_list_cases [of "\<lambda>r. dtx r \<noteq> None" "decode_tx dtx" rt, OF decode_tx_cases]
    decode_list_cases [of is_header decode_header ru, OF decode_header_cases]
  by (auto simp add: conforms_def Stream_Decode_def err_bind_def)

lemma Stream_Decode_4:
  "(conforms dtx (RList [rh, rt, ru, rd])
      \<and> (\<exists>h txs us. Stream_Decode dtx (RList [rh, rt, ru, rd]) =
            Inr \<lparr>ext_Header = h, ext_Txs = txs, ext_Uncles = us,
                 ext_TD = Some (int (be_nat (payload rd)))\<rparr>))
   \<or> (\<not> conforms dtx (RList [rh, rt, ru, rd])
      \<and> Stream_Decode dtx (RList [rh, rt, ru, rd]) = Inl MalformedEncoding)"
  using decode_header_cases [of rh]
    decode_list_cases [of "\<lambda>r. dtx r \<noteq> None" "decode_tx dtx" rt, OF decode_tx_cases]
    decode_list_cases [of is_header decode_header ru, OF decode_header_cases]
  by (auto simp add: conforms_def Stream_Decode_def err_bind_def decode_big_if)

lemma list_of_length_3: "length xs = 3 \<Longrightarrow> \<exists>a b c. xs = [a, b, c]"
  by (auto simp add: numeral_3_eq_3 length_Suc_conv)

lemma list_of_length_4: "length xs = 4 \<Longrightarrow> \<exists>a b c d. xs = [a, b, c, d]"
  by (auto simp add: eval_nat_numeral length_Suc_conv)

lemma Stream_Decode_cases:
  "(conforms dtx s \<and> (\<exists>x. Stream_Decode dtx s = Inr x))
   \<or> (\<not> conforms dtx s \<and> Stream_Decode dtx s = Inl MalformedEncoding)"
proof (cases s)
  case (RBytes bs)
  then show ?thesis by (simp add: conforms_def Stream_Decode_def)
next
  case (RList rs)
  consider (three) rh rt ru where "rs = [rh, rt, ru]"
    | (four) rh rt ru rd where "rs = [rh, rt, ru, rd]"
    | (other) "length rs \<noteq> 3" "length rs \<noteq> 4"
    using list_of_length_3 [of rs] list_of_length_4 [of rs] by blast
  then show ?thesis
  proof cases
    case three
    with RList Stream_Decode_3 [of dtx rh rt ru] show ?thesis by auto
  next
    case four
    with RList Stream_Decode_4 [of dtx rh rt ru rd] show ?thesis by auto
  next
    case other
    with RList show ?thesis
      by (auto simp add: conforms_def Stream_Decode_def split: list.split)
  qed
qed

section \<open>The claims\<close>




text \<open>
  Claim C2, override precedence. When the preset \<open>HeaderHash\<close> of a block is not zero,
  \<open>Block.Hash\<close> returns it whatever the header holds; when it is zero, \<open>Block.Hash\<close> is the
  header's own hash. \<open>Block.HashNoNonce\<close> is always the header's no-nonce hash, and setting
  the override does not change it.
\<close>

theorem C2_override_precedence:
  "(HeaderHash B \<noteq> 0 \<longrightarrow> Block_Hash c B = Inr (HeaderHash B))
   \<and> (HeaderHash B = 0 \<longrightarrow> Block_Hash c B = Header_Hash c (header B))
   \<and> Block_HashNoNonce c B = Header_HashNoNonce c (header B)
   \<and> Block_HashNoNonce c (B\<lparr>HeaderHash := x\<rparr>) = Block_HashNoNonce c B"
  by (simp add: Block_Hash_def Block_HashNoNonce_def)

theorem C2_override_precedence_witness:
  "HeaderHash (sample_block\<lparr>HeaderHash := 5\<rparr>) \<noteq> 0
   \<and> Block_Hash sample_collab (sample_block\<lparr>HeaderHash := 5\<rparr>) = Inr 5
   \<and> HeaderHash sample_block = 0
   \<and> Block_Hash sample_collab sample_block = Header_Hash sample_collab (Some sample_header)"
  using C2_override_precedence [of "sample_block\<lparr>HeaderHash := 5\<rparr>" sample_collab 0]
    C2_override_precedence [of sample_block sample_collab 0]
  by (simp add: sample_block_def)

text \<open>
  Claim C3, nonce independence. Two headers that agree on the thirteen fields other than
  \<open>MixDigest\<close> and \<open>Nonce\<close> have the same \<open>HashNoNonce\<close>. Two headers that differ in
  \<open>MixDigest\<close> or \<open>Nonce\<close> have different \<open>Hash\<close>, unless their two different field lists
  collide under the encode-then-hash. The no-nonce field list is the thirteen fields and
  determines them; the full field list is the no-nonce list followed by \<open>MixDigest\<close> and
  \<open>Nonce\<close>.
\<close>

theorem C3_nonce_independence:
  "(same_but_pow h1 h2 \<longrightarrow>
      Header_HashNoNonce c (Some h1) = Header_HashNoNonce c (Some h2))
   \<and> (MixDigest h1 \<noteq> MixDigest h2 \<or> Nonce h1 \<noteq> Nonce h2 \<longrightarrow>
      Header_Hash c (Some h1) \<noteq> Header_Hash c (Some h2)
      \<or> hash_collision c (rlpData h1 True) (rlpData h2 True))
   \<and> (rlpData h1 False = rlpData h2 False \<longleftrightarrow> same_but_pow h1 h2)
   \<and> length (rlpData h1 False) = 13
   \<and> rlpData h1 True = rlpData h1 False @ [FHash (MixDigest h1), FNonce (Nonce h1)]"
  by (auto simp add: same_but_pow_def rlpData_def Header_HashNoNonce_def Header_Hash_def
        Header_rlpData_def hash_collision_def)

theorem C3_nonce_independence_witness:
  "same_but_pow sample_header (sample_header\<lparr>MixDigest := 9, Nonce := 43\<rparr>)
   \<and> Nonce sample_header \<noteq> Nonce (sample_header\<lparr>MixDigest := 9, Nonce := 43\<rparr>)
   \<and> Header_HashNoNonce sample_collab (Some sample_header) =
      Header_HashNoNonce sample_collab (Some (sample_header\<lparr>MixDigest := 9, Nonce := 43\<rparr>))
   \<and> Header_Hash sample_collab (Some sample_header) \<noteq>
      Header_Hash sample_collab (Some (sample_header\<lparr>MixDigest := 9, Nonce := 43\<rparr>))"
proof -
  have a: "same_but_pow sample_header (sample_header\<lparr>MixDigest := 9, Nonce := 43\<rparr>)"
    by (simp add: same_but_pow_def)
  have b: "Nonce sample_header \<noteq> Nonce (sample_header\<lparr>MixDigest := 9, Nonce := 43\<rparr>)"
    by (simp add: sample_header_def)
  have c: "Header_Hash sample_collab (Some sample_header) \<noteq>
      Header_Hash sample_collab (Some (sample_header\<lparr>MixDigest := 9, Nonce := 43\<rparr>))"
    by (simp add: Header_Hash_def Header_rlpData_def rlpData_def sample_collab_def
          sample_header_def be_nat_be_min comp_def)
  show ?thesis
    using a b c C3_nonce_independence [of sample_header
      "sample_header\<lparr>MixDigest := 9, Nonce := 43\<rparr>" sample_collab]
    by blast
qed

text \<open>
  Claim C4, optional total difficulty on decode. A stream of the shape
  \<open>{header, transactions, uncles}\<close> decodes without error and leaves \<open>Td\<close> unset; a stream
  of the shape \<open>{header, transactions, uncles, totalDifficulty}\<close> decodes without error and
  sets \<open>Td\<close> to the number its fourth element holds, which for the encoding of a number
  \<open>td\<close> that is not negative is \<open>td\<close> itself.
\<close>

theorem C4_optional_total_difficulty:
  "(conforms dtx (RList [rh, rt, ru]) \<longrightarrow>
      (\<exists>B'. DecodeRLP dtx B (RList [rh, rt, ru]) = (None, B') \<and> Td B' = None))
   \<and> (conforms dtx (RList [rh, rt, ru, rd]) \<longrightarrow>
      (\<exists>B'. DecodeRLP dtx B (RList [rh, rt, ru, rd]) = (None, B')
         \<and> Td B' = Some (int (be_nat (payload rd)))))
   \<and> (0 \<le> td \<and> conforms dtx (RList [rh, rt, ru, encode_field (FBig (Some td))]) \<longrightarrow>
      (\<exists>B'. DecodeRLP dtx B (RList [rh, rt, ru, encode_field (FBig (Some td))]) = (None, B')
         \<and> Td B' = Some td))"
proof (intro conjI impI)
  assume "conforms dtx (RList [rh, rt, ru])"
  with Stream_Decode_3 [of dtx rh rt ru]
  show "\<exists>B'. DecodeRLP dtx B (RList [rh, rt, ru]) = (None, B') \<and> Td B' = None"
    by (auto simp add: DecodeRLP_def DecodeRLP_with_def)
next
  assume "conforms dtx (RList [rh, rt, ru, rd])"
  with Stream_Decode_4 [of dtx rh rt ru rd]
  show "\<exists>B'. DecodeRLP dtx B (RList [rh, rt, ru, rd]) = (None, B')
         \<and> Td B' = Some (int (be_nat (payload rd)))"
    by (auto simp add: DecodeRLP_def DecodeRLP_with_def)
next
  assume a: "0 \<le> td \<and> conforms dtx (RList [rh, rt, ru, encode_field (FBig (Some td))])"
  then have "int (be_nat (payload (encode_field (FBig (Some td))))) = td"
    by (simp add: payload_def be_nat_be_min)
  with a Stream_Decode_4 [of dtx rh rt ru "encode_field (FBig (Some td))"]
  show "\<exists>B'. DecodeRLP dtx B (RList [rh, rt, ru, encode_field (FBig (Some td))]) = (None, B')
         \<and> Td B' = Some td"
    by (auto simp add: DecodeRLP_def DecodeRLP_with_def simp del: encode_field.simps)
qed

theorem C4_optional_total_difficulty_witness:
  "conforms sample_dtx
     (RList [RList (map encode_field (rlpData sample_header True)), RList [RBytes [1]], RList []])
   \<and> (\<exists>B'. DecodeRLP sample_dtx sample_block
         (RList [RList (map encode_field (rlpData sample_header True)), RList [RBytes [1]],
                 RList []]) = (None, B') \<and> Td B' = None)
   \<and> (0::int) \<le> 7
   \<and> conforms sample_dtx
     (RList [RList (map encode_field (rlpData sample_header True)), RList [RBytes [1]], RList [],
             encode_field (FBig (Some 7))])
   \<and> (\<exists>B'. DecodeRLP sample_dtx sample_block
         (RList [RList (map encode_field (rlpData sample_header True)), RList [RBytes [1]],
                 RList [], encode_field (FBig (Some 7))]) = (None, B') \<and> Td B' = Some 7)"
proof -
  have c3: "conforms sample_dtx
     (RList [RList (map encode_field (rlpData sample_header True)), RList [RBytes [1]], RList []])"
    using is_header_encode [of sample_header]
    by (simp add: conforms_def is_list_of_def sample_dtx_def)
  have c4: "conforms sample_dtx
     (RList [RList (map encode_field (rlpData sample_header True)), RList [RBytes [1]], RList [],
             encode_field (FBig (Some 7))])"
    using is_header_encode [of sample_header]
    by (simp add: conforms_def is_list_of_def sample_dtx_def is_bytes_def)
  show ?thesis
    using c3 c4
      C4_optional_total_difficulty [of sample_dtx
        "RList (map encode_field (rlpData sample_header True))" "RList [RBytes [1]]" "RList []"
        sample_block "encode_field (FBig (Some 7))" 7]
    by simp
qed

text \<open>
  Claim C5, append equivalence. On a block with a header, \<open>AddTransaction\<close> returns with
  the transaction list \<open>T @ [t]\<close> and the header's \<open>TxHash\<close> equal to \<open>DeriveSha (T @ [t])\<close>;
  on a block whose header pointer is \<open>nil\<close> the call panics.
\<close>

theorem C5_append_equivalence:
  "(header B \<noteq> None \<longrightarrow>
      (\<exists>B' h'. AddTransaction c B t = Inr B'
         \<and> transactions B' = transactions B @ [t]
         \<and> header B' = Some h'
         \<and> TxHash h' = DeriveSha_txs c (transactions B @ [t])))
   \<and> (header B = None \<longrightarrow> AddTransaction c B t = Inl NilPointerDereference)"
  by (auto simp add: AddTransaction_def SetTransactions_def)

theorem C5_append_equivalence_witness:
  "header sample_block \<noteq> None
   \<and> (\<exists>B' h'. AddTransaction sample_collab sample_block (Some [9]) = Inr B'
         \<and> transactions B' = transactions sample_block @ [Some [9]]
         \<and> header B' = Some h'
         \<and> TxHash h' = DeriveSha_txs sample_collab (transactions sample_block @ [Some [9]]))
   \<and> header (sample_block\<lparr>header := None\<rparr>) = None
   \<and> AddTransaction sample_collab (sample_block\<lparr>header := None\<rparr>) (Some [9])
      = Inl NilPointerDereference"
  using C5_append_equivalence [of sample_block sample_collab "Some [9]"]
    C5_append_equivalence [of "sample_block\<lparr>header := None\<rparr>" sample_collab "Some [9]"]
  by (simp add: sample_block_def)

text \<open>
  Claim C6, encode/decode round-trip, as amended. For a block whose header and uncle
  headers are set and have numeric fields that are set and not negative, and whose
  transactions are set and are read back by their own decoder, decoding the network form
  yields the block's header, transactions and uncles with \<open>Td\<close> unset; when \<open>Td\<close> is set
  and not negative, decoding the storage form yields them with the block's \<open>Td\<close>.
\<close>

theorem C6_round_trip:
  assumes "header_encodable (header B)"
    and "list_all header_encodable (uncles B)"
    and "list_all (\<lambda>t. t \<noteq> None) (transactions B)"
    and "\<forall>t. Some t \<in> set (transactions B) \<longrightarrow> dtx (etx t) = Some t"
  shows "decode_encoded etx dtx (Block_RlpData B) B0 =
           (None, B0\<lparr>header := header B, uncles := uncles B,
                      transactions := transactions B, Td := None\<rparr>)
       \<and> (unsigned_big (Td B) \<longrightarrow>
           decode_encoded etx dtx (Block_RlpDataForStorage B) B0 =
           (None, B0\<lparr>header := header B, uncles := uncles B,
                      transactions := transactions B, Td := Td B\<rparr>))"
  using assms decode_network_form [of B dtx etx B0] decode_storage_form [of B dtx etx B0]
  by blast

theorem C6_round_trip_witness:
  "header_encodable (header sample_block)
   \<and> list_all header_encodable (uncles sample_block)
   \<and> list_all (\<lambda>t. t \<noteq> None) (transactions sample_block)
   \<and> sample_dtx (sample_etx [1, 2, 3]) = Some [1, 2, 3]
   \<and> unsigned_big (Td sample_block)
   \<and> decode_encoded sample_etx sample_dtx (Block_RlpData sample_block)
        (NewBlockWithHeader None :: (byte list, nat) Block) =
      (None, NewBlockWithHeader None\<lparr>header := header sample_block,
          uncles := uncles sample_block, transactions := transactions sample_block,
          Td := None\<rparr>)
   \<and> decode_encoded sample_etx sample_dtx (Block_RlpDataForStorage sample_block)
        (NewBlockWithHeader None :: (byte list, nat) Block) =
      (None, NewBlockWithHeader None\<lparr>header := header sample_block,
          uncles := uncles sample_block, transactions := transactions sample_block,
          Td := Td sample_block\<rparr>)"
proof -
  have h: "header_encodable (header sample_block)"
    "list_all header_encodable (uncles sample_block)"
    "list_all (\<lambda>t. t \<noteq> None) (transactions sample_block)"
    "\<forall>t. Some t \<in> set (transactions sample_block) \<longrightarrow> sample_dtx (sample_etx t) = Some t"
    "unsigned_big (Td sample_block)"
    by (simp_all add: sample_block_def sample_header_def header_encodable_def unsigned_big_def
          sample_dtx_def sample_etx_def)
  have t: "sample_dtx (sample_etx [1, 2, 3]) = Some [1, 2, 3]"
    by (simp add: sample_dtx_def sample_etx_def)
  show ?thesis
    using h(1,2,3,5) t
      C6_round_trip [OF h(1,2,3,4), of "NewBlockWithHeader None :: (byte list, nat) Block"]
    by blast
qed

text \<open>As stated, C6 fails: a header number of \<open>-1\<close> is encoded without its sign and
  comes back as \<open>1\<close>, so the decoded header is not the block's.\<close>

theorem C6_counterexample:
  "header (snd (decode_encoded sample_etx sample_dtx
                  (Block_RlpData (NewBlockWithHeader (Some (sample_header\<lparr>Number := Some (- 1)\<rparr>))
                     :: (byte list, nat) Block))
                  (NewBlockWithHeader None :: (byte list, nat) Block)))
   = Some (sample_header\<lparr>Number := Some 1\<rparr>)
   \<and> Some (sample_header\<lparr>Number := Some 1\<rparr>)
      \<noteq> header (NewBlockWithHeader (Some (sample_header\<lparr>Number := Some (- 1)\<rparr>))
           :: (byte list, nat) Block)"
proof -
  have m: "magnitude (Difficulty sample_header) = Difficulty sample_header"
    "magnitude (GasLimit sample_header) = GasLimit sample_header"
    "magnitude (GasUsed sample_header) = GasUsed sample_header"
    by (simp_all add: magnitude_def sample_header_def)
  have d: "decode_header (RList (map encode_field
          (rlpData (sample_header\<lparr>Number := Some (- 1)\<rparr>) True)))
      = Inr (Some (sample_header\<lparr>Number := Some 1\<rparr>))"
    by (simp add: decode_header_encode m) (simp add: magnitude_def)
  have ne: "sample_header\<lparr>Number := Some 1\<rparr> \<noteq> sample_header\<lparr>Number := Some (- 1)\<rparr>"
  proof
    assume "sample_header\<lparr>Number := Some 1\<rparr> = sample_header\<lparr>Number := Some (- 1)\<rparr>"
    then have "Number (sample_header\<lparr>Number := Some 1\<rparr>)
        = Number (sample_header\<lparr>Number := Some (- 1)\<rparr>)" by (rule arg_cong)
    then show False by simp
  qed
  from d ne show ?thesis
    by (simp add: decode_encoded_def Block_RlpData_def NewBlockWithHeader_def
          Header_rlpData_def DecodeRLP_def DecodeRLP_with_def Stream_Decode_def err_bind_def
          decode_list_def)
qed




text \<open>
  Claim C8, decode atomicity. On a stream that does not have the expected shape or field
  types \<open>DecodeRLP\<close> returns a \<open>MalformedEncoding\<close> error and the block is as it was; it
  returns no other error; and whatever the stream decoder, when it fails \<open>DecodeRLP\<close>
  returns its error and assigns nothing.
\<close>

theorem C8_decode_atomicity:
  "(\<not> conforms dtx s \<longrightarrow> DecodeRLP dtx B s = (Some MalformedEncoding, B))
   \<and> (fst (DecodeRLP dtx B s) \<noteq> None \<longrightarrow>
        DecodeRLP dtx B s = (Some MalformedEncoding, B) \<and> \<not> conforms dtx s)
   \<and> (dec s' = Inl e \<longrightarrow> DecodeRLP_with dec B s' = (Some e, B))"
proof -
  consider (accepted) x where "conforms dtx s" "Stream_Decode dtx s = Inr x"
    | (rejected) "\<not> conforms dtx s" "Stream_Decode dtx s = Inl MalformedEncoding"
    using Stream_Decode_cases [of dtx s] by blast
  then have "(\<not> conforms dtx s \<longrightarrow> DecodeRLP dtx B s = (Some MalformedEncoding, B))
   \<and> (fst (DecodeRLP dtx B s) \<noteq> None \<longrightarrow>
        DecodeRLP dtx B s = (Some MalformedEncoding, B) \<and> \<not> conforms dtx s)"
  proof cases
    case accepted
    then show ?thesis by (simp add: DecodeRLP_def DecodeRLP_with_def)
  next
    case rejected
    then show ?thesis by (simp add: DecodeRLP_def DecodeRLP_with_def)
  qed
  moreover have "dec s' = Inl e \<longrightarrow> DecodeRLP_with dec B s' = (Some e, B)"
    by (simp add: DecodeRLP_with_def)
  ultimately show ?thesis by blast
qed

theorem C8_decode_atomicity_witness:
  "\<not> conforms sample_dtx (RList [RBytes [], RList []])
   \<and> DecodeRLP sample_dtx sample_block (RList [RBytes [], RList []])
      = (Some MalformedEncoding, sample_block)
   \<and> fst (DecodeRLP sample_dtx sample_block (RList [RBytes [], RList []])) \<noteq> None
   \<and> Stream_Decode sample_dtx (RBytes [1]) = Inl MalformedEncoding
   \<and> DecodeRLP_with (Stream_Decode sample_dtx) sample_block (RBytes [1])
      = (Some MalformedEncoding, sample_block)"
proof -
  have a: "\<not> conforms sample_dtx (RList [RBytes [], RList []])"
    by (simp add: conforms_def)
  have b: "Stream_Decode sample_dtx (RBytes [1]) = Inl MalformedEncoding"
    by (simp add: Stream_Decode_def)
  note c = C8_decode_atomicity [of sample_dtx "RList [RBytes [], RList []]" sample_block
      "Stream_Decode sample_dtx" "RBytes [1]" MalformedEncoding]
  from a c have r: "DecodeRLP sample_dtx sample_block (RList [RBytes [], RList []])
      = (Some MalformedEncoding, sample_block)" by blast
  then have f: "fst (DecodeRLP sample_dtx sample_block (RList [RBytes [], RList []])) \<noteq> None"
    by simp
  from b c have "DecodeRLP_with (Stream_Decode sample_dtx) sample_block (RBytes [1])
      = (Some MalformedEncoding, sample_block)" by blast
  with a b r f show ?thesis by blast
qed

text \<open>
  Claim C9, sort ordering. For a slice of blocks in which every block pointer, its header
  pointer and its header number are set, \<open>BlockBy.Sort\<close> with the \<open>Number\<close> comparison
  returns; the slice then holds a permutation of its former content, and the header
  numbers are non-decreasing, each at most its successor. This holds with every routine
  for \<open>sort.Sort\<close> that does what the library's documentation promises.
\<close>

theorem C9_sort_ordering:
  assumes "meets_sort_contract sort_Sort"
    and "\<forall>b \<in> set bls. number_of b \<noteq> None"
  shows "\<exists>ys ns. BlockBy_Sort sort_Sort Number_by bls = Inr ys \<and> mset ys = mset bls
           \<and> map number_of ys = map Some ns \<and> sorted ns
           \<and> (\<forall>i. Suc i < length ns \<longrightarrow> ns ! i \<le> ns ! Suc i)"
proof -
  let ?d = "\<lparr>blocks = bls, by_fn = Number_by\<rparr>"
  have "transitive_ordering (by_fn ?d) (blocks ?d)"
    using assms(2) by (simp add: Number_by_ordering)
  with assms(1) obtain d' ps where d': "sort_Sort ?d = Inr d'" "apply_swaps ?d ps = Inr d'"
    "\<forall>i. Suc i < Len d' \<longrightarrow> Less d' (Suc i) i = Inr False"
    unfolding meets_sort_contract_def by blast
  from apply_swaps_permutes [OF d'(2)]
  have perm: "mset (blocks d') = mset bls" and by': "by_fn d' = Number_by" by simp_all
  let ?ys = "blocks d'"
  have "set ?ys = set bls" using perm by (metis set_mset_mset)
  with assms(2) have numbered: "\<forall>b \<in> set ?ys. number_of b \<noteq> None" by simp
  have step: "block_key (?ys ! i) \<le> block_key (?ys ! Suc i)" if "Suc i < length ?ys" for i
  proof -
    from that d'(3) have "Less d' (Suc i) i = Inr False" by (simp add: Len_def)
    moreover from that have "Less d' (Suc i) i
        = Inr (block_key (?ys ! Suc i) < block_key (?ys ! i))"
      by (intro Less_numbered [OF by' numbered]) simp_all
    ultimately show ?thesis by simp
  qed
  then have adj: "\<forall>i. Suc i < length (map block_key ?ys) \<longrightarrow>
      map block_key ?ys ! i \<le> map block_key ?ys ! Suc i" by simp
  then have srt: "sorted (map block_key ?ys)"
    by (simp only: sorted_iff_nth_Suc)
  have keys: "map number_of ?ys = map Some (map block_key ?ys)"
    using numbered by (rule numbered_keys)
  have "BlockBy_Sort sort_Sort Number_by bls = Inr ?ys"
    using d'(1) by (simp add: BlockBy_Sort_def)
  with perm keys srt adj show ?thesis by blast
qed

text \<open>Three blocks, sorted by insertion.\<close>

theorem C9_sort_ordering_witness:
  "number_of (numbered_block 3) \<noteq> None \<and> number_of (numbered_block 1) \<noteq> None
   \<and> number_of (numbered_block 2) \<noteq> None
   \<and> BlockBy_Sort short_Sort Number_by [numbered_block 3, numbered_block 1, numbered_block 2]
      = Inr [numbered_block 1, numbered_block 2, numbered_block 3]
   \<and> map number_of [numbered_block 1, numbered_block 2, numbered_block 3]
      = map Some [1, 2, 3]
   \<and> sorted [1, 2, 3 :: int]"
proof -
  have n: "\<And>k. number_of (numbered_block k) = Some k"
    by (simp add: number_of_def numbered_block_def NewBlockWithHeader_def)
  have k: "\<And>i j. Number_by (numbered_block i) (numbered_block j) = Inr (i < j)"
    by (simp add: Number_by_numbered n block_key_def)
  have run: "BlockBy_Sort short_Sort Number_by
        [numbered_block 3, numbered_block 1, numbered_block 2]
      = Inr [numbered_block 1, numbered_block 2, numbered_block 3]"
    by (simp add: BlockBy_Sort_def short_Sort_def Len_def insertionSort_def Less_def Swap_def k
          numeral_2_eq_2 numeral_3_eq_3)
  have "\<forall>b \<in> set [numbered_block 3, numbered_block 1, numbered_block 2].
      number_of b \<noteq> None" by (simp add: n)
  from C9_sort_ordering [OF short_Sort_meets_contract this]
  obtain ys ns
    where "BlockBy_Sort short_Sort Number_by
        [numbered_block 3, numbered_block 1, numbered_block 2] = Inr ys"
      and "map number_of ys = map Some ns" and "sorted ns"
    by blast
  with run n have "sorted [1, 2, 3 :: int]" by auto
  with run n show ?thesis by simp
qed

text \<open>
  Claim C10, indexed access. For an index at or beyond the length of the list,
  \<open>GetTransaction\<close> and \<open>GetUncle\<close> return \<open>nil\<close> and no error; for an index from zero up
  to the length they return the element at that index; a negative index passes the guard
  and the slice access panics.
\<close>

theorem C10_indexed_access:
  "(int (length (transactions B)) \<le> i \<longrightarrow> GetTransaction B i = Inr None)
   \<and> (int (length (uncles B)) \<le> i \<longrightarrow> GetUncle B i = Inr None)
   \<and> (0 \<le> i \<and> i < int (length (transactions B)) \<longrightarrow>
        GetTransaction B i = Inr (transactions B ! nat i))
   \<and> (0 \<le> i \<and> i < int (length (uncles B)) \<longrightarrow> GetUncle B i = Inr (uncles B ! nat i))
   \<and> (i < 0 \<longrightarrow> GetTransaction B i = Inl IndexOutOfRange
                 \<and> GetUncle B i = Inl IndexOutOfRange)"
  by (auto simp add: GetTransaction_def GetUncle_def)

theorem C10_indexed_access_witness:
  "int (length (transactions sample_block)) \<le> 1
   \<and> GetTransaction sample_block 1 = Inr None
   \<and> int (length (uncles sample_block)) \<le> 1
   \<and> GetUncle sample_block 1 = Inr None
   \<and> (0::int) \<le> 0 \<and> 0 < int (length (transactions sample_block))
   \<and> GetTransaction sample_block 0 = Inr (Some [1, 2, 3])
   \<and> 0 < int (length (uncles sample_block))
   \<and> GetUncle sample_block 0 = Inr (Some sample_header)
   \<and> (- 1::int) < 0
   \<and> GetTransaction sample_block (- 1) = Inl IndexOutOfRange
   \<and> GetUncle sample_block (- 1) = Inl IndexOutOfRange"
  using C10_indexed_access [of sample_block 1] C10_indexed_access [of sample_block 0]
    C10_indexed_access [of sample_block "- 1"]
  by (simp add: sample_block_def)

end
